theory Spec2Isabelle
  imports Complex_Main "HOL-Library.Sublist"
begin

section \<open>Python values used by \<open>models/base_model.py\<close>\<close>

text \<open>
  Exceptions are values. \<open>SaveError p\<close> stands for whatever subclass of \<open>Exception\<close>
  \<open>torch.save\<close> raises when it cannot write to the path \<open>p\<close>;
  \<open>AttributeError a\<close> names the attribute that was not found, \<open>KeyError k\<close> the key.
\<close>

datatype error =
    AssertionError
  | AttributeError string
  | KeyError string
  | TypeError
  | RuntimeError
  | NotImplementedError
  | SaveError string

text \<open>
  An entry of one of the three name lists. Python lists are heterogeneous, and the source
  asserts \<open>isinstance(name, str)\<close>; \<open>PyInt\<close> stands for an entry that is not a string.
\<close>

datatype pyname = PyStr string | PyInt int

text \<open>The epoch of a checkpoint: a number or a label such as \<open>latest\<close>.\<close>

datatype epoch = EpochInt int | EpochStr string

subsection \<open>\<open>str()\<close> of an integer, \<open>str.format\<close>, \<open>str.split\<close>\<close>

definition digit_char :: "nat \<Rightarrow> char" where
  "digit_char d =
     (if d = 0 then CHR ''0'' else if d = 1 then CHR ''1'' else if d = 2 then CHR ''2''
      else if d = 3 then CHR ''3'' else if d = 4 then CHR ''4'' else if d = 5 then CHR ''5''
      else if d = 6 then CHR ''6'' else if d = 7 then CHR ''7'' else if d = 8 then CHR ''8''
      else CHR ''9'')"

fun str_nat :: "nat \<Rightarrow> string" where
  "str_nat n = (if n < 10 then [digit_char n] else str_nat (n div 10) @ [digit_char (n mod 10)])"

declare str_nat.simps [simp del]

definition str_int :: "int \<Rightarrow> string" where
  "str_int i = (if i < 0 then CHR ''-'' # str_nat (nat (- i)) else str_nat (nat i))"

definition str_epoch :: "epoch \<Rightarrow> string" where
  "str_epoch e = (case e of EpochInt i \<Rightarrow> str_int i | EpochStr s \<Rightarrow> s)"

definition str_name :: "pyname \<Rightarrow> string" where
  "str_name n = (case n of PyStr s \<Rightarrow> s | PyInt i \<Rightarrow> str_int i)"

text \<open>\<open>"{}_net_{}.pth".format(epoch, name)\<close> and its two siblings.\<close>

definition net_filename :: "epoch \<Rightarrow> pyname \<Rightarrow> string" where
  "net_filename ep n = str_epoch ep @ ''_net_'' @ str_name n @ ''.pth''"

definition subnet_filename :: "epoch \<Rightarrow> string \<Rightarrow> string" where
  "subnet_filename ep n = str_epoch ep @ ''_subnet_'' @ n @ ''.pth''"

definition states_filename :: "epoch \<Rightarrow> string" where
  "states_filename ep = str_epoch ep @ ''_states.pth''"

text \<open>\<open>s.split(",")\<close>: the result is never empty, \<open>"".split(",") = [""]\<close>.\<close>

fun split_comma :: "string \<Rightarrow> string list" where
  "split_comma [] = [[]]"
| "split_comma (c # cs) =
     (if c = CHR '','' then [] # split_comma cs
      else (case split_comma cs of
              [] \<Rightarrow> [[c]]
            | w # ws \<Rightarrow> (c # w) # ws))"

text \<open>Truthiness of an option value that is \<open>None\<close> or a string.\<close>

definition truthy :: "string option \<Rightarrow> bool" where
  "truthy x = (case x of None \<Rightarrow> False | Some s \<Rightarrow> s \<noteq> [])"

subsection \<open>\<open>os.path.join\<close> (posixpath)\<close>

text \<open>
  \<open>posixpath.join(a, b)\<close> for two strings: an absolute \<open>b\<close> replaces \<open>a\<close>; otherwise
  a separator is inserted unless \<open>a\<close> is empty or already ends with one.
\<close>

definition startswith_sep :: "string \<Rightarrow> bool" where
  "startswith_sep b = (b \<noteq> [] \<and> hd b = CHR ''/'')"

definition endswith_sep :: "string \<Rightarrow> bool" where
  "endswith_sep a = (a \<noteq> [] \<and> last a = CHR ''/'')"

definition path_join :: "string \<Rightarrow> string \<Rightarrow> string" where
  "path_join a b =
     (if startswith_sep b then b
      else if a = [] \<or> endswith_sep a then a @ b
      else a @ ''/'' @ b)"

text \<open>\<open>os.path.join(None, b)\<close> raises \<open>TypeError\<close>.\<close>

definition os_path_join :: "string option \<Rightarrow> string \<Rightarrow> error + string" where
  "os_path_join a b = (case a of None \<Rightarrow> Inl TypeError | Some d \<Rightarrow> Inr (path_join d b))"

section \<open>Networks, optimizers and the object\<close>

text \<open>
  Parameters live in a store, so that two modules that share a parameter see each other's
  updates, as the Python objects do. A tensor is its flat data; shapes are not modelled
  (a checkpoint tensor stored under a matching key is taken to have the parameter's shape).
\<close>

type_synonym addr = nat
type_synonym tensor = "int list"
type_synonym state_dict = "(string \<times> tensor) list"

record param =
  data :: tensor
  requires_grad :: bool

text \<open>
  A module is the list of its named parameters; \<open>DataParallel m\<close> is the wrapper whose
  \<open>.module\<close> is \<open>m\<close> and whose parameter names carry the prefix \<open>module.\<close>.
\<close>

datatype module = Module "(string \<times> addr) list" | DataParallel module

fun named_parameters :: "module \<Rightarrow> (string \<times> addr) list" where
  "named_parameters (Module ps) = ps"
| "named_parameters (DataParallel m) =
     map (\<lambda>(k, a). (''module.'' @ k, a)) (named_parameters m)"

text \<open>\<open>net.parameters()\<close>: every parameter once.\<close>

definition parameters :: "module \<Rightarrow> addr list" where
  "parameters m = remdups (map snd (named_parameters m))"

text \<open>\<open>if isinstance(net, nn.DataParallel): net = net.module\<close>\<close>

definition unwrap :: "module \<Rightarrow> module" where
  "unwrap net = (case net of DataParallel m \<Rightarrow> m | Module ps \<Rightarrow> Module ps)"

text \<open>An attribute of the object, as \<open>getattr\<close> finds it: a network or anything else.\<close>

datatype pyattr = NetObj module | OtherObj int

text \<open>The first parameter group's learning rate is all the source reads of an optimizer.\<close>

record optimizer =
  lr :: rat

text \<open>
  A scheduler holds a reference to its optimizer (an index into \<open>self.optimizers\<close>), the
  number of steps taken, and the rate it sets at each step count.
\<close>

record scheduler =
  sched_optimizer :: nat
  last_epoch :: nat
  lr_lambda :: "nat \<Rightarrow> rat"

text \<open>
  The configuration object \<open>opt\<close>. \<open>checkpoints_dir\<close> and \<open>name\<close> are taken to be
  strings; the options that the source tests for truth or against \<open>None\<close> may be
  \<open>None\<close>.
\<close>

record options =
  opt_gpu_ids :: "int list"
  opt_is_train :: bool
  opt_checkpoints_dir :: string
  opt_name :: string
  opt_resume_dir :: "string option"
  opt_resume_epoch :: epoch
  opt_load_subnetworks_dir :: "string option"
  opt_load_subnetworks :: "string option"
  opt_load_subnetworks_epoch :: epoch
  opt_freeze_subnetworks :: "string option"
  opt_verbose :: bool

text \<open>
  What is written to standard output, and one marker per entry into a method that
  \<open>setup\<close> calls. The markers are not printed by the source; they make the order of
  the calls observable.
\<close>

datatype event =
    PrintLoadingPretrained "string list"
  | PrintFreezing "string list"
  | PrintCannotLoad string
  | PrintLoading pyname
  | PrintException error
  | PrintNetworksHeader
  | PrintNet module
  | PrintNumParams pyname nat
  | PrintNetworksFooter
  | PrintLearningRate nat rat
  | Call_load_subnetworks epoch
  | Call_load_networks epoch
  | Call_freeze_subnetworks "string list"
  | Call_print_networks bool

text \<open>
  The object after \<open>initialize\<close>, together with the world it acts on.
  \<open>schedulers\<close> is \<open>None\<close> until \<open>setup\<close> creates the attribute; \<open>optimizers\<close> is
  \<open>None\<close> when the subclass has not set it; \<open>subnetworks\<close> is the dictionary that the
  subclass's \<open>get_subnetworks()\<close> returns, \<open>None\<close> when the subclass does not
  override it. \<open>attrs\<close> is the attribute namespace that \<open>getattr(self, ...)\<close> searches.
  \<open>files\<close> holds the checkpoint files, each a well-formed dictionary that
  \<open>torch.load\<close> returns as it is; \<open>torch.save\<close> to a path in \<open>unwritable\<close>
  raises and leaves the files as they are.
\<close>

record state =
  opt :: options
  gpu_ids :: "int list"
  is_train :: bool
  device :: string
  save_dir :: string
  cudnn_benchmark :: bool
  loss_names :: "pyname list"
  model_names :: "pyname list"
  visual_names :: "pyname list"
  schedulers :: "scheduler list option"
  optimizers :: "optimizer list option"
  attrs :: "string \<rightharpoonup> pyattr"
  subnetworks :: "(string \<times> module) list option"
  store :: "addr \<Rightarrow> param"
  files :: "string \<rightharpoonup> state_dict"
  unwritable :: "string set"
  stdout :: "event list"

type_synonym 'a result = "(error + 'a) \<times> state"

text \<open>Sequencing of two statements: an exception in the first skips the second.\<close>

definition and_then :: "(state \<Rightarrow> unit result) \<Rightarrow> (state \<Rightarrow> unit result) \<Rightarrow> state \<Rightarrow> unit result" where
  "and_then f g s = (case f s of (Inl e, s') \<Rightarrow> (Inl e, s') | (Inr u, s') \<Rightarrow> g s')"

definition print :: "event \<Rightarrow> state \<Rightarrow> state" where
  "print ev s = s\<lparr>stdout := stdout s @ [ev]\<rparr>"

section \<open>The methods of \<open>BaseModel\<close>\<close>

subsection \<open>\<open>initialize\<close>\<close>

definition initialize :: "options \<Rightarrow> state \<Rightarrow> state" where
  "initialize o' s =
     s\<lparr>opt := o',
       gpu_ids := opt_gpu_ids o',
       is_train := opt_is_train o',
       device := ''cpu'',
       save_dir := path_join (opt_checkpoints_dir o') (opt_name o'),
       cudnn_benchmark := True,
       loss_names := [],
       model_names := [],
       visual_names := []\<rparr>"

subsection \<open>\<open>get_networks\<close>, \<open>get_current_visuals\<close>, \<open>get_current_losses\<close>\<close>

fun get_networks_loop :: "(string \<rightharpoonup> pyattr) \<Rightarrow> pyname list \<Rightarrow> module list \<Rightarrow> error + module list" where
  "get_networks_loop obj [] ret = Inr ret"
| "get_networks_loop obj (PyInt i # names) ret = Inl AssertionError"
| "get_networks_loop obj (PyStr name # names) ret =
     (case obj (''net_'' @ name) of
        None \<Rightarrow> Inl (AttributeError (''net_'' @ name))
      | Some (OtherObj x) \<Rightarrow> Inl AssertionError
      | Some (NetObj net) \<Rightarrow> get_networks_loop obj names (ret @ [net]))"

definition get_networks :: "state \<Rightarrow> error + module list" where
  "get_networks s = get_networks_loop (attrs s) (model_names s) []"

fun get_current_visuals_loop :: "(string \<rightharpoonup> pyattr) \<Rightarrow> pyname list \<Rightarrow> (string \<rightharpoonup> pyattr) \<Rightarrow> error + (string \<rightharpoonup> pyattr)" where
  "get_current_visuals_loop obj [] ret = Inr ret"
| "get_current_visuals_loop obj (PyInt i # names) ret = Inl AssertionError"
| "get_current_visuals_loop obj (PyStr name # names) ret =
     (case obj name of
        None \<Rightarrow> Inl (AttributeError name)
      | Some v \<Rightarrow> get_current_visuals_loop obj names (ret(name \<mapsto> v)))"

definition get_current_visuals :: "state \<Rightarrow> error + (string \<rightharpoonup> pyattr)" where
  "get_current_visuals s = get_current_visuals_loop (attrs s) (visual_names s) Map.empty"

fun get_current_losses_loop :: "(string \<rightharpoonup> pyattr) \<Rightarrow> pyname list \<Rightarrow> (string \<rightharpoonup> pyattr) \<Rightarrow> error + (string \<rightharpoonup> pyattr)" where
  "get_current_losses_loop obj [] ret = Inr ret"
| "get_current_losses_loop obj (PyInt i # names) ret = Inl AssertionError"
| "get_current_losses_loop obj (PyStr name # names) ret =
     (case obj (''loss_'' @ name) of
        None \<Rightarrow> Inl (AttributeError (''loss_'' @ name))
      | Some v \<Rightarrow> get_current_losses_loop obj names (ret(name \<mapsto> v)))"

definition get_current_losses :: "state \<Rightarrow> error + (string \<rightharpoonup> pyattr)" where
  "get_current_losses s = get_current_losses_loop (attrs s) (loss_names s) Map.empty"

subsection \<open>\<open>get_subnetworks\<close>\<close>

text \<open>The base class raises \<open>NotImplementedError\<close>; a subclass returns its dictionary.\<close>

definition get_subnetworks :: "state \<Rightarrow> error + (string \<times> module) list" where
  "get_subnetworks s = (case subnetworks s of None \<Rightarrow> Inl NotImplementedError | Some nets \<Rightarrow> Inr nets)"

subsection \<open>\<open>freeze_subnetworks\<close>, \<open>unfreeze_subnetworks\<close>\<close>

text \<open>\<open>module.requires_grad_(flag)\<close> sets the flag of every parameter of the module.\<close>

definition module_requires_grad :: "module \<Rightarrow> bool \<Rightarrow> (addr \<Rightarrow> param) \<Rightarrow> (addr \<Rightarrow> param)" where
  "module_requires_grad m flag st =
     fold (\<lambda>a st'. st'(a := (st' a)\<lparr>requires_grad := flag\<rparr>)) (parameters m) st"

text \<open>The loop of both methods; \<open>nets[name]\<close> raises \<open>KeyError\<close> for an unknown name.\<close>

fun requires_grad_loop :: "(string \<times> module) list \<Rightarrow> bool \<Rightarrow> string list \<Rightarrow> state \<Rightarrow> unit result" where
  "requires_grad_loop nets flag [] s = (Inr (), s)"
| "requires_grad_loop nets flag (name # network_names) s =
     (case map_of nets name of
        None \<Rightarrow> (Inl (KeyError name), s)
      | Some net \<Rightarrow>
          requires_grad_loop nets flag network_names
            (s\<lparr>store := module_requires_grad net flag (store s)\<rparr>))"

definition freeze_subnetworks :: "string list \<Rightarrow> state \<Rightarrow> unit result" where
  "freeze_subnetworks network_names s0 =
     (let s = print (Call_freeze_subnetworks network_names) s0 in
      case get_subnetworks s of
        Inl e \<Rightarrow> (Inl e, s)
      | Inr nets \<Rightarrow> requires_grad_loop nets False network_names s)"

definition unfreeze_subnetworks :: "string list \<Rightarrow> state \<Rightarrow> unit result" where
  "unfreeze_subnetworks network_names s =
     (case get_subnetworks s of
        Inl e \<Rightarrow> (Inl e, s)
      | Inr nets \<Rightarrow> requires_grad_loop nets True network_names s)"

subsection \<open>\<open>torch.save\<close>, \<open>state_dict\<close>, \<open>load_state_dict\<close>\<close>

definition torch_save :: "state_dict \<Rightarrow> string \<Rightarrow> state \<Rightarrow> unit result" where
  "torch_save obj path s =
     (if path \<in> unwritable s then (Inl (SaveError path), s)
      else (Inr (), s\<lparr>files := (files s)(path \<mapsto> obj)\<rparr>))"

definition module_state_dict :: "module \<Rightarrow> (addr \<Rightarrow> param) \<Rightarrow> state_dict" where
  "module_state_dict m st = map (\<lambda>(k, a). (k, data (st a))) (named_parameters m)"

text \<open>Copying one checkpoint entry into the parameter of the same name, if there is one.\<close>

definition load_param :: "state_dict \<Rightarrow> string \<times> addr \<Rightarrow> (addr \<Rightarrow> param) \<Rightarrow> (addr \<Rightarrow> param)" where
  "load_param sd ka st =
     (case map_of sd (fst ka) of
        None \<Rightarrow> st
      | Some t \<Rightarrow> st(snd ka := (st (snd ka))\<lparr>data := t\<rparr>))"

definition missing_keys :: "module \<Rightarrow> state_dict \<Rightarrow> string list" where
  "missing_keys net sd = filter (\<lambda>k. map_of sd k = None) (map fst (named_parameters net))"

definition unexpected_keys :: "module \<Rightarrow> state_dict \<Rightarrow> string list" where
  "unexpected_keys net sd = filter (\<lambda>k. k \<notin> set (map fst (named_parameters net))) (map fst sd)"

text \<open>
  \<open>Module.load_state_dict(state_dict, strict)\<close>: the parameters whose names are in the
  checkpoint are copied first; then, when \<open>strict\<close>, a missing or an unexpected key
  raises \<open>RuntimeError\<close>.
\<close>

definition copy_params :: "module \<Rightarrow> state_dict \<Rightarrow> (addr \<Rightarrow> param) \<Rightarrow> (addr \<Rightarrow> param)" where
  "copy_params net sd st = fold (load_param sd) (named_parameters net) st"

definition load_state_dict :: "module \<Rightarrow> state_dict \<Rightarrow> bool \<Rightarrow> state \<Rightarrow> unit result" where
  "load_state_dict net sd strict s =
     (let s' = s\<lparr>store := copy_params net sd (store s)\<rparr> in
      if strict \<and> (missing_keys net sd \<noteq> [] \<or> unexpected_keys net sd \<noteq> [])
      then (Inl RuntimeError, s')
      else (Inr (), s'))"

subsection \<open>\<open>save_subnetworks\<close>, \<open>save_networks\<close>\<close>

text \<open>The body of the loop is the \<open>try\<close> block; its \<open>except\<close> prints and goes on.\<close>

fun save_subnetworks_loop :: "epoch \<Rightarrow> (string \<times> module) list \<Rightarrow> state \<Rightarrow> state" where
  "save_subnetworks_loop ep [] s = s"
| "save_subnetworks_loop ep ((name, net) # nets) s =
     (let save_filename = subnet_filename ep name;
          save_path = path_join (save_dir s) save_filename
      in case torch_save (module_state_dict (unwrap net) (store s)) save_path s of
           (Inl e, s') \<Rightarrow> save_subnetworks_loop ep nets (print (PrintException e) s')
         | (Inr u, s') \<Rightarrow> save_subnetworks_loop ep nets s')"

definition save_subnetworks :: "epoch \<Rightarrow> state \<Rightarrow> unit result" where
  "save_subnetworks ep s =
     (case get_subnetworks s of
        Inl e \<Rightarrow> (Inl e, s)
      | Inr nets \<Rightarrow> (Inr (), save_subnetworks_loop ep nets s))"

fun save_networks_loop :: "epoch \<Rightarrow> (pyname \<times> module) list \<Rightarrow> state \<Rightarrow> state" where
  "save_networks_loop ep [] s = s"
| "save_networks_loop ep ((name, net) # nets) s =
     (let save_filename = net_filename ep name;
          save_path = path_join (save_dir s) save_filename
      in case torch_save (module_state_dict (unwrap net) (store s)) save_path s of
           (Inl e, s') \<Rightarrow> save_networks_loop ep nets (print (PrintException e) s')
         | (Inr u, s') \<Rightarrow> save_networks_loop ep nets s')"

text \<open>The last \<open>torch.save\<close>, of \<open>other_states\<close>, stands after the loop, outside any \<open>try\<close>.\<close>

definition save_networks :: "epoch \<Rightarrow> state_dict \<Rightarrow> state \<Rightarrow> unit result" where
  "save_networks ep other_states s =
     (case get_networks s of
        Inl e \<Rightarrow> (Inl e, s)
      | Inr nets \<Rightarrow>
          (let s1 = save_networks_loop ep (zip (model_names s) nets) s;
               save_filename = states_filename ep;
               save_path = path_join (save_dir s1) save_filename
           in torch_save other_states save_path s1))"

subsection \<open>\<open>load_subnetworks\<close>, \<open>load_networks\<close>\<close>

text \<open>\<open>resume_dir if resume_dir is not None else self.opt.resume_dir\<close>\<close>

definition load_dir :: "string option \<Rightarrow> state \<Rightarrow> string option" where
  "load_dir resume_dir s =
     (case resume_dir of Some d \<Rightarrow> Some d | None \<Rightarrow> opt_resume_dir (opt s))"

fun load_subnetworks_loop ::
  "epoch \<Rightarrow> string set \<Rightarrow> string option \<Rightarrow> (string \<times> module) list \<Rightarrow> state \<Rightarrow> unit result" where
  "load_subnetworks_loop ep names resume_dir [] s = (Inr (), s)"
| "load_subnetworks_loop ep names resume_dir ((name, net) # networks) s =
     (if name \<notin> names then load_subnetworks_loop ep names resume_dir networks s
      else
        (let load_filename = subnet_filename ep name in
         case os_path_join (load_dir resume_dir s) load_filename of
           Inl e \<Rightarrow> (Inl e, s)
         | Inr load_path \<Rightarrow>
             (case files s load_path of
                None \<Rightarrow>
                  load_subnetworks_loop ep names resume_dir networks
                    (print (PrintCannotLoad load_path) s)
              | Some sd \<Rightarrow>
                  (case load_state_dict (unwrap net) sd True s of
                     (Inl e, s') \<Rightarrow> (Inl e, s')
                   | (Inr u, s') \<Rightarrow> load_subnetworks_loop ep names resume_dir networks s'))))"

definition load_subnetworks :: "epoch \<Rightarrow> string list option \<Rightarrow> string option \<Rightarrow> state \<Rightarrow> unit result" where
  "load_subnetworks ep names resume_dir s0 =
     (let s = print (Call_load_subnetworks ep) s0 in
      case get_subnetworks s of
        Inl e \<Rightarrow> (Inl e, s)
      | Inr networks \<Rightarrow>
          load_subnetworks_loop ep
            (case names of None \<Rightarrow> set (map fst networks) | Some ns \<Rightarrow> set ns)
            resume_dir networks s)"

fun load_networks_loop :: "epoch \<Rightarrow> (pyname \<times> module) list \<Rightarrow> state \<Rightarrow> unit result" where
  "load_networks_loop ep [] s = (Inr (), s)"
| "load_networks_loop ep ((name, net) # nets) s0 =
     (let s = print (PrintLoading name) s0 in
      case name of
        PyInt i \<Rightarrow> (Inl AssertionError, s)
      | PyStr n \<Rightarrow>
          (let load_filename = net_filename ep name in
           case os_path_join (opt_resume_dir (opt s)) load_filename of
             Inl e \<Rightarrow> (Inl e, s)
           | Inr load_path \<Rightarrow>
               (case files s load_path of
                  None \<Rightarrow> load_networks_loop ep nets (print (PrintCannotLoad load_path) s)
                | Some sd \<Rightarrow>
                    (case load_state_dict (unwrap net) sd False s of
                       (Inl e, s') \<Rightarrow> (Inl e, s')
                     | (Inr u, s') \<Rightarrow> load_networks_loop ep nets s'))))"

definition load_networks :: "epoch \<Rightarrow> state \<Rightarrow> unit result" where
  "load_networks ep s0 =
     (let s = print (Call_load_networks ep) s0 in
      case get_networks s of
        Inl e \<Rightarrow> (Inl e, s)
      | Inr nets \<Rightarrow> load_networks_loop ep (zip (model_names s) nets) s)"

subsection \<open>\<open>print_networks\<close>\<close>

fun print_networks_loop :: "bool \<Rightarrow> (pyname \<times> module) list \<Rightarrow> state \<Rightarrow> state" where
  "print_networks_loop verbose [] s = s"
| "print_networks_loop verbose ((name, net) # nets) s =
     (let num_params = sum_list (map (\<lambda>a. length (data (store s a))) (parameters net));
          s1 = (if verbose then print (PrintNet net) s else s)
      in print_networks_loop verbose nets (print (PrintNumParams name num_params) s1))"

definition print_networks :: "bool \<Rightarrow> state \<Rightarrow> unit result" where
  "print_networks verbose s0 =
     (let s = print PrintNetworksHeader (print (Call_print_networks verbose) s0) in
      case get_networks s of
        Inl e \<Rightarrow> (Inl e, s)
      | Inr nets \<Rightarrow>
          (Inr (), print PrintNetworksFooter
                     (print_networks_loop verbose (zip (model_names s) nets) s)))"

subsection \<open>\<open>update_learning_rate\<close>\<close>

text \<open>
  \<open>scheduler.step()\<close> counts the step and writes the new rate into its optimizer, which
  is the scheduler's own reference: the list \<open>self.optimizers\<close> sees it when the
  optimizer is one of its elements.
\<close>

definition scheduler_step :: "scheduler \<Rightarrow> optimizer list \<Rightarrow> scheduler \<times> optimizer list" where
  "scheduler_step sc ops =
     (let sc' = sc\<lparr>last_epoch := Suc (last_epoch sc)\<rparr>;
          i = sched_optimizer sc
      in (sc', if i < length ops
               then ops[i := (ops ! i)\<lparr>lr := lr_lambda sc (last_epoch sc')\<rparr>]
               else ops))"

fun step_schedulers :: "scheduler list \<Rightarrow> optimizer list \<Rightarrow> scheduler list \<times> optimizer list" where
  "step_schedulers [] ops = ([], ops)"
| "step_schedulers (sc # scs) ops =
     (case scheduler_step sc ops of
        (sc', ops') \<Rightarrow>
          (case step_schedulers scs ops' of
             (scs', ops'') \<Rightarrow> (sc' # scs', ops'')))"

text \<open>\<open>for i, optim in enumerate(self.optimizers)\<close>, over the pairs of \<open>enumerate\<close>.\<close>

fun report_learning_rates :: "bool \<Rightarrow> (nat \<times> optimizer) list \<Rightarrow> state \<Rightarrow> state" where
  "report_learning_rates verbose [] s = s"
| "report_learning_rates verbose ((i, optim) # rest) s =
     report_learning_rates verbose rest
       (if verbose then print (PrintLearningRate (i + 1) (lr optim)) s else s)"

definition update_learning_rate :: "bool \<Rightarrow> state \<Rightarrow> unit result" where
  "update_learning_rate verbose s =
     (case schedulers s of
        None \<Rightarrow> (Inl (AttributeError ''schedulers''), s)
      | Some scs \<Rightarrow>
          (case step_schedulers scs (case optimizers s of None \<Rightarrow> [] | Some ops \<Rightarrow> ops) of
             (scs', ops') \<Rightarrow>
               (case optimizers s of
                  None \<Rightarrow> (Inl (AttributeError ''optimizers''), s\<lparr>schedulers := Some scs'\<rparr>)
                | Some ops \<Rightarrow>
                    (Inr (), report_learning_rates verbose (enumerate 0 ops')
                               (s\<lparr>schedulers := Some scs', optimizers := Some ops'\<rparr>)))))"

subsection \<open>\<open>setup\<close>\<close>

text \<open>
  The four conditional statements of \<open>setup\<close>, in the order of the source, then
  \<open>print_networks\<close>. \<open>get_scheduler\<close> is imported from \<open>models/networks.py\<close> and is a
  parameter here; the scheduler it builds for the \<open>i\<close>-th optimizer refers to that
  optimizer. \<open>None.split(",")\<close> raises \<open>AttributeError\<close>.
\<close>

definition setup_schedulers :: "(optimizer \<Rightarrow> options \<Rightarrow> scheduler) \<Rightarrow> options \<Rightarrow> state \<Rightarrow> unit result" where
  "setup_schedulers get_scheduler o' s =
     (if is_train s then
        (case optimizers s of
           None \<Rightarrow> (Inl (AttributeError ''optimizers''), s)
         | Some ops \<Rightarrow>
             (Inr (), s\<lparr>schedulers :=
                Some (map (\<lambda>i. (get_scheduler (ops ! i) o')\<lparr>sched_optimizer := i\<rparr>)
                        [0..<length ops])\<rparr>))
      else (Inr (), s))"

definition setup_load_subnetworks :: "options \<Rightarrow> state \<Rightarrow> unit result" where
  "setup_load_subnetworks o' s =
     (if truthy (opt_load_subnetworks_dir o') then
        (case opt_load_subnetworks o' of
           None \<Rightarrow> (Inl (AttributeError ''split''), s)
         | Some names \<Rightarrow>
             (let nets = split_comma names in
              case load_subnetworks (opt_load_subnetworks_epoch o') (Some (split_comma names))
                     (opt_load_subnetworks_dir o') s of
                (Inl e, s') \<Rightarrow> (Inl e, s')
              | (Inr u, s') \<Rightarrow> (Inr (), print (PrintLoadingPretrained nets) s')))
      else (Inr (), s))"

definition setup_load_networks :: "options \<Rightarrow> state \<Rightarrow> unit result" where
  "setup_load_networks o' s =
     (if \<not> is_train s \<or> truthy (opt_resume_dir o') then load_networks (opt_resume_epoch o') s
      else (Inr (), s))"

definition setup_freeze_subnetworks :: "options \<Rightarrow> state \<Rightarrow> unit result" where
  "setup_freeze_subnetworks o' s =
     (if truthy (opt_freeze_subnetworks o') then
        (case opt_freeze_subnetworks o' of
           None \<Rightarrow> (Inl (AttributeError ''split''), s)
         | Some names \<Rightarrow>
             (let nets = split_comma names in
              case freeze_subnetworks (split_comma names) s of
                (Inl e, s') \<Rightarrow> (Inl e, s')
              | (Inr u, s') \<Rightarrow> (Inr (), print (PrintFreezing nets) s')))
      else (Inr (), s))"

definition setup_model :: "(optimizer \<Rightarrow> options \<Rightarrow> scheduler) \<Rightarrow> options \<Rightarrow> state \<Rightarrow> unit result" where
  "setup_model get_scheduler o' =
     and_then (setup_schedulers get_scheduler o')
       (and_then (setup_load_subnetworks o')
          (and_then (setup_load_networks o')
             (and_then (setup_freeze_subnetworks o')
                (print_networks (opt_verbose o')))))"

section \<open>A concrete object\<close>

text \<open>
  A small model with two networks \<open>net_G\<close> and \<open>net_D\<close>, two subnetworks \<open>enc\<close> and
  \<open>dec\<close> that share the parameters of \<open>net_G\<close>, and one optimizer. It is the input of
  the closed theorems below.
\<close>

definition example_options :: options where
  "example_options =
     \<lparr>opt_gpu_ids = [], opt_is_train = True, opt_checkpoints_dir = ''ckpt'',
      opt_name = ''exp'', opt_resume_dir = Some ''run'', opt_resume_epoch = EpochInt 7,
      opt_load_subnetworks_dir = Some ''pre'', opt_load_subnetworks = Some ''enc,dec'',
      opt_load_subnetworks_epoch = EpochStr ''latest'', opt_freeze_subnetworks = Some ''enc'',
      opt_verbose = False\<rparr>"

definition example_store :: "addr \<Rightarrow> param" where
  "example_store = (\<lambda>a. \<lparr>data = [int a], requires_grad = True\<rparr>)"

definition example_state :: state where
  "example_state =
     \<lparr>opt = example_options, gpu_ids = [], is_train = True, device = ''cpu'',
      save_dir = ''ckpt/exp'',
      cudnn_benchmark = True, loss_names = [PyStr ''total''],
      model_names = [PyStr ''G'', PyStr ''D''], visual_names = [PyStr ''image''],
      schedulers = None, optimizers = Some [\<lparr>lr = 1\<rparr>],
      attrs = [''net_G'' \<mapsto> NetObj (Module [(''w'', 0), (''b'', 1)]),
               ''net_D'' \<mapsto> NetObj (DataParallel (Module [(''w'', 2)])),
               ''loss_total'' \<mapsto> OtherObj 3, ''image'' \<mapsto> OtherObj 4],
      subnetworks = Some [(''enc'', Module [(''w'', 0)]), (''dec'', Module [(''b'', 1)])],
      store = example_store, files = Map.empty, unwritable = {}, stdout = []\<rparr>"

section \<open>Notions used in the statements\<close>

text \<open>The parameters of the subnetworks that a list of names selects.\<close>

definition touched :: "(string \<times> module) list \<Rightarrow> string list \<Rightarrow> addr set" where
  "touched nets names =
     (\<Union>n\<in>set names. case map_of nets n of None \<Rightarrow> {} | Some m \<Rightarrow> set (parameters m))"

text \<open>
  The file \<open>f\<close> directly under the directory \<open>d\<close>, as a path: \<open>d/f\<close>, with no second
  separator when \<open>d\<close> already ends with one (or is empty, the current directory).
\<close>

definition under_directory :: "string \<Rightarrow> string \<Rightarrow> string" where
  "under_directory d f = (if d = [] \<or> endswith_sep d then d @ f else d @ ''/'' @ f)"

text \<open>
  For a call of \<open>load_subnetworks\<close> that looks in the directory \<open>d\<close> for the names in
  \<open>names\<close>: the requested subnetworks whose checkpoint file exists, each with the
  content of its file, in the order of the dictionary; and the paths of the requested
  subnetworks whose file does not exist.
\<close>

definition subnet_checkpoints_found ::
  "epoch \<Rightarrow> string set \<Rightarrow> string \<Rightarrow> (string \<rightharpoonup> state_dict) \<Rightarrow> (string \<times> module) list
     \<Rightarrow> (module \<times> state_dict) list" where
  "subnet_checkpoints_found ep names d fs networks =
     List.map_filter
       (\<lambda>(n, net). if n \<in> names then map_option (Pair net) (fs (path_join d (subnet_filename ep n)))
                    else None)
       networks"

definition subnet_checkpoints_missing ::
  "epoch \<Rightarrow> string set \<Rightarrow> string \<Rightarrow> (string \<rightharpoonup> state_dict) \<Rightarrow> (string \<times> module) list
     \<Rightarrow> string list" where
  "subnet_checkpoints_missing ep names d fs networks =
     map (\<lambda>(n, net). path_join d (subnet_filename ep n))
       (filter (\<lambda>(n, net). n \<in> names \<and> fs (path_join d (subnet_filename ep n)) = None) networks)"

text \<open>The same for \<open>load_networks\<close>, over the registered networks.\<close>

definition net_checkpoints_found ::
  "epoch \<Rightarrow> string \<Rightarrow> (string \<rightharpoonup> state_dict) \<Rightarrow> (pyname \<times> module) list
     \<Rightarrow> (module \<times> state_dict) list" where
  "net_checkpoints_found ep d fs nets =
     List.map_filter (\<lambda>(n, net). map_option (Pair net) (fs (path_join d (net_filename ep n)))) nets"

text \<open>What \<open>load_networks\<close> prints for one network.\<close>

definition net_load_lines :: "epoch \<Rightarrow> string \<Rightarrow> (string \<rightharpoonup> state_dict) \<Rightarrow> pyname \<Rightarrow> event list" where
  "net_load_lines ep d fs n =
     PrintLoading n #
       (if fs (path_join d (net_filename ep n)) = None
        then [PrintCannotLoad (path_join d (net_filename ep n))] else [])"

text \<open>Copying a list of checkpoints into their modules, one after the other.\<close>

definition copy_all :: "(module \<times> state_dict) list \<Rightarrow> (addr \<Rightarrow> param) \<Rightarrow> (addr \<Rightarrow> param)" where
  "copy_all cs st = fold (\<lambda>(net, sd). copy_params (unwrap net) sd) cs st"

text \<open>The strict check passes: no key of the module is missing, no key of the file is unexpected.\<close>

definition keys_match :: "module \<Rightarrow> state_dict \<Rightarrow> bool" where
  "keys_match net sd = (missing_keys net sd = [] \<and> unexpected_keys net sd = [])"

text \<open>
  The markers of method entries within a trace; what a run from \<open>s\<close> to \<open>s'\<close> has
  added to the trace; and a run that has only added to the trace and kept the mode flag.
\<close>

fun is_call :: "event \<Rightarrow> bool" where
  "is_call (Call_load_subnetworks ep) = True"
| "is_call (Call_load_networks ep) = True"
| "is_call (Call_freeze_subnetworks names) = True"
| "is_call (Call_print_networks verbose) = True"
| "is_call ev = False"

definition calls :: "event list \<Rightarrow> event list" where
  "calls tr = filter is_call tr"

definition new_events :: "state \<Rightarrow> state \<Rightarrow> event list" where
  "new_events s s' = drop (length (stdout s)) (stdout s')"

definition new_calls :: "state \<Rightarrow> state \<Rightarrow> event list" where
  "new_calls s s' = calls (new_events s s')"

definition extends :: "state \<Rightarrow> state \<Rightarrow> bool" where
  "extends s s' = (prefix (stdout s) (stdout s') \<and> is_train s' = is_train s)"

text \<open>The first occurrence of \<open>a\<close> in a list is followed by an occurrence of \<open>b\<close>.\<close>

fun occurs_before :: "'a \<Rightarrow> 'a \<Rightarrow> 'a list \<Rightarrow> bool" where
  "occurs_before a b [] = False"
| "occurs_before a b (x # xs) = (if x = a then b \<in> set xs else occurs_before a b xs)"

text \<open>A scheduler constructor for the example object: a constant rate.\<close>

definition example_get_scheduler :: "optimizer \<Rightarrow> options \<Rightarrow> scheduler" where
  "example_get_scheduler optim o' = \<lparr>sched_optimizer = 0, last_epoch = 0, lr_lambda = (\<lambda>n. lr optim)\<rparr>"

section \<open>Resolving registered names\<close>

lemma get_networks_loop_ok:
  "(\<exists>nets. get_networks_loop obj names ret = Inr nets) \<longleftrightarrow>
   (\<forall>n\<in>set names. \<exists>k m. n = PyStr k \<and> obj (''net_'' @ k) = Some (NetObj m))"
proof (induction obj names ret rule: get_networks_loop.induct)
  case (3 obj name names ret)
  then show ?case by (auto split: option.splits pyattr.splits)
qed auto

lemma get_networks_loop_error:
  "get_networks_loop obj names ret = Inl e \<Longrightarrow>
     (e = AssertionError \<and>
        ((\<exists>i. PyInt i \<in> set names) \<or>
         (\<exists>k x. PyStr k \<in> set names \<and> obj (''net_'' @ k) = Some (OtherObj x)))) \<or>
     (\<exists>k. e = AttributeError (''net_'' @ k) \<and> PyStr k \<in> set names \<and> obj (''net_'' @ k) = None)"
proof (induction obj names ret rule: get_networks_loop.induct)
  case (3 obj name names ret)
  then show ?case by (auto split: option.splits pyattr.splits)
qed auto

lemma get_networks_loop_length:
  "get_networks_loop obj names ret = Inr nets \<Longrightarrow> length nets = length ret + length names"
proof (induction obj names ret rule: get_networks_loop.induct)
  case (3 obj name names ret)
  then show ?case by (auto split: option.splits pyattr.splits)
qed auto

lemma get_current_losses_loop_ok:
  "(\<exists>r. get_current_losses_loop obj names ret = Inr r) \<longleftrightarrow>
   (\<forall>n\<in>set names. \<exists>k v. n = PyStr k \<and> obj (''loss_'' @ k) = Some v)"
proof (induction names arbitrary: ret)
  case (Cons n names)
  then show ?case by (cases n) (auto split: option.splits)
qed auto

lemma get_current_losses_loop_error:
  "get_current_losses_loop obj names ret = Inl e \<Longrightarrow>
     (e = AssertionError \<and> (\<exists>i. PyInt i \<in> set names)) \<or>
     (\<exists>k. e = AttributeError (''loss_'' @ k) \<and> PyStr k \<in> set names \<and> obj (''loss_'' @ k) = None)"
proof (induction names arbitrary: ret)
  case (Cons n names)
  then show ?case by (cases n) (auto split: option.splits)
qed auto

lemma get_current_visuals_loop_ok:
  "(\<exists>r. get_current_visuals_loop obj names ret = Inr r) \<longleftrightarrow>
   (\<forall>n\<in>set names. \<exists>k v. n = PyStr k \<and> obj k = Some v)"
proof (induction names arbitrary: ret)
  case (Cons n names)
  then show ?case by (cases n) (auto split: option.splits)
qed auto

lemma get_current_visuals_loop_error:
  "get_current_visuals_loop obj names ret = Inl e \<Longrightarrow>
     (e = AssertionError \<and> (\<exists>i. PyInt i \<in> set names)) \<or>
     (\<exists>k. e = AttributeError k \<and> PyStr k \<in> set names \<and> obj k = None)"
proof (induction names arbitrary: ret)
  case (Cons n names)
  then show ?case by (cases n) (auto split: option.splits)
qed auto

text \<open>
  Claim C3, as the spec states it: a registered name that no attribute of the expected kind
  backs makes the accessor fail with an assertion error. It does not hold: for a name
  \<open>X\<close> in \<open>model_names\<close> with no attribute \<open>net_X\<close>, \<open>getattr\<close> raises
  \<open>AttributeError\<close> before any assertion is reached.
\<close>

theorem get_networks_missing_attribute_counterexample:
  "model_names (example_state\<lparr>model_names := [PyStr ''X'']\<rparr>) = [PyStr ''X''] \<and>
   attrs (example_state\<lparr>model_names := [PyStr ''X'']\<rparr>) ''net_X'' = None \<and>
   get_networks (example_state\<lparr>model_names := [PyStr ''X'']\<rparr>) = Inl (AttributeError ''net_X'') \<and>
   get_networks (example_state\<lparr>model_names := [PyStr ''X'']\<rparr>) \<noteq> Inl AssertionError"
  by (simp add: get_networks_def example_state_def)

text \<open>
  Claim C3, amended: each accessor returns normally exactly when every registered name is
  a string whose attribute exists (and, for \<open>get_networks\<close> only, is a network); when it
  fails, the error is \<open>AttributeError\<close> for a string name whose attribute does not
  exist, and \<open>AssertionError\<close> only for a name that is not a string or, in
  \<open>get_networks\<close>, for an attribute that is not a network. \<open>get_current_losses\<close> and
  \<open>get_current_visuals\<close> check no kind.
\<close>

theorem registered_name_resolution:
  "((\<exists>nets. get_networks s = Inr nets) \<longleftrightarrow>
      (\<forall>n\<in>set (model_names s). \<exists>k m. n = PyStr k \<and> attrs s (''net_'' @ k) = Some (NetObj m))) \<and>
   (\<forall>e. get_networks s = Inl e \<longrightarrow>
      (e = AssertionError \<and>
         ((\<exists>i. PyInt i \<in> set (model_names s)) \<or>
          (\<exists>k x. PyStr k \<in> set (model_names s) \<and> attrs s (''net_'' @ k) = Some (OtherObj x)))) \<or>
      (\<exists>k. e = AttributeError (''net_'' @ k) \<and> PyStr k \<in> set (model_names s) \<and>
           attrs s (''net_'' @ k) = None)) \<and>
   ((\<exists>r. get_current_losses s = Inr r) \<longleftrightarrow>
      (\<forall>n\<in>set (loss_names s). \<exists>k v. n = PyStr k \<and> attrs s (''loss_'' @ k) = Some v)) \<and>
   (\<forall>e. get_current_losses s = Inl e \<longrightarrow>
      (e = AssertionError \<and> (\<exists>i. PyInt i \<in> set (loss_names s))) \<or>
      (\<exists>k. e = AttributeError (''loss_'' @ k) \<and> PyStr k \<in> set (loss_names s) \<and>
           attrs s (''loss_'' @ k) = None)) \<and>
   ((\<exists>r. get_current_visuals s = Inr r) \<longleftrightarrow>
      (\<forall>n\<in>set (visual_names s). \<exists>k v. n = PyStr k \<and> attrs s k = Some v)) \<and>
   (\<forall>e. get_current_visuals s = Inl e \<longrightarrow>
      (e = AssertionError \<and> (\<exists>i. PyInt i \<in> set (visual_names s))) \<or>
      (\<exists>k. e = AttributeError k \<and> PyStr k \<in> set (visual_names s) \<and> attrs s k = None))"
proof (intro conjI allI impI)
  show "(\<exists>nets. get_networks s = Inr nets) \<longleftrightarrow>
      (\<forall>n\<in>set (model_names s). \<exists>k m. n = PyStr k \<and> attrs s (''net_'' @ k) = Some (NetObj m))"
    unfolding get_networks_def by (rule get_networks_loop_ok)
  show "(\<exists>r. get_current_losses s = Inr r) \<longleftrightarrow>
      (\<forall>n\<in>set (loss_names s). \<exists>k v. n = PyStr k \<and> attrs s (''loss_'' @ k) = Some v)"
    unfolding get_current_losses_def by (rule get_current_losses_loop_ok)
  show "(\<exists>r. get_current_visuals s = Inr r) \<longleftrightarrow>
      (\<forall>n\<in>set (visual_names s). \<exists>k v. n = PyStr k \<and> attrs s k = Some v)"
    unfolding get_current_visuals_def by (rule get_current_visuals_loop_ok)
next
  fix e assume "get_networks s = Inl e"
  then show "(e = AssertionError \<and>
         ((\<exists>i. PyInt i \<in> set (model_names s)) \<or>
          (\<exists>k x. PyStr k \<in> set (model_names s) \<and> attrs s (''net_'' @ k) = Some (OtherObj x)))) \<or>
      (\<exists>k. e = AttributeError (''net_'' @ k) \<and> PyStr k \<in> set (model_names s) \<and>
           attrs s (''net_'' @ k) = None)"
    unfolding get_networks_def by (rule get_networks_loop_error)
next
  fix e assume "get_current_losses s = Inl e"
  then show "(e = AssertionError \<and> (\<exists>i. PyInt i \<in> set (loss_names s))) \<or>
      (\<exists>k. e = AttributeError (''loss_'' @ k) \<and> PyStr k \<in> set (loss_names s) \<and>
           attrs s (''loss_'' @ k) = None)"
    unfolding get_current_losses_def by (rule get_current_losses_loop_error)
next
  fix e assume "get_current_visuals s = Inl e"
  then show "(e = AssertionError \<and> (\<exists>i. PyInt i \<in> set (visual_names s))) \<or>
      (\<exists>k. e = AttributeError k \<and> PyStr k \<in> set (visual_names s) \<and> attrs s k = None)"
    unfolding get_current_visuals_def by (rule get_current_visuals_loop_error)
qed

text \<open>
  The amended claim at concrete objects: a missing \<open>loss_\<close> attribute and a name that is
  not a string make \<open>get_current_losses\<close> fail, and the error is one of the two kinds;
  the unchanged example object resolves all its names.
\<close>

theorem registered_name_resolution_witness:
  "(\<nexists>r. get_current_losses (example_state\<lparr>loss_names := [PyStr ''total'', PyStr ''gan'']\<rparr>) = Inr r) \<and>
   get_current_losses (example_state\<lparr>loss_names := [PyStr ''total'', PyStr ''gan'']\<rparr>)
     = Inl (AttributeError ''loss_gan'') \<and>
   get_networks (example_state\<lparr>model_names := [PyInt 5]\<rparr>) = Inl AssertionError \<and>
   (\<exists>nets. get_networks example_state = Inr nets) \<and>
   (\<exists>r. get_current_visuals example_state = Inr r)"
proof -
  let ?s = "example_state\<lparr>loss_names := [PyStr ''total'', PyStr ''gan'']\<rparr>"
  have bad: "\<not> (\<forall>n\<in>set (loss_names ?s). \<exists>k v. n = PyStr k \<and> attrs ?s (''loss_'' @ k) = Some v)"
    by (simp add: example_state_def)
  have 1: "\<nexists>r. get_current_losses ?s = Inr r"
    using registered_name_resolution [of ?s] bad by blast
  have 2: "get_current_losses ?s = Inl (AttributeError ''loss_gan'')"
    by (simp add: get_current_losses_def example_state_def)
  have 3: "get_networks (example_state\<lparr>model_names := [PyInt 5]\<rparr>) = Inl AssertionError"
    by (simp add: get_networks_def)
  have 4: "\<exists>nets. get_networks example_state = Inr nets"
    using registered_name_resolution [of example_state] by (simp add: example_state_def)
  have 5: "\<exists>r. get_current_visuals example_state = Inr r"
    using registered_name_resolution [of example_state] by (simp add: example_state_def)
  from 1 2 3 4 5 show ?thesis by blast
qed

section \<open>Freezing and unfreezing\<close>

lemma fold_requires_grad:
  "fold (\<lambda>a st'. st'(a := (st' a)\<lparr>requires_grad := flag\<rparr>)) as st x =
     (if x \<in> set as then (st x)\<lparr>requires_grad := flag\<rparr> else st x)"
  by (induction as arbitrary: st) auto

lemma module_requires_grad_apply:
  "module_requires_grad m flag st x =
     (if x \<in> set (parameters m) then (st x)\<lparr>requires_grad := flag\<rparr> else st x)"
  unfolding module_requires_grad_def by (rule fold_requires_grad)

lemma requires_grad_loop_result:
  "set names \<subseteq> dom (map_of nets) \<Longrightarrow>
   requires_grad_loop nets flag names s =
     (Inr (), s\<lparr>store := (\<lambda>x. if x \<in> touched nets names
                              then (store s x)\<lparr>requires_grad := flag\<rparr> else store s x)\<rparr>)"
proof (induction names arbitrary: s)
  case Nil
  then show ?case by (simp add: touched_def)
next
  case (Cons n names)
  then obtain m where m: "map_of nets n = Some m" by auto
  have rest: "set names \<subseteq> dom (map_of nets)" using Cons.prems by simp
  have t: "touched nets (n # names) = set (parameters m) \<union> touched nets names"
    by (simp add: touched_def m)
  show ?case
    by (simp add: m Cons.IH [OF rest] t module_requires_grad_apply fun_eq_iff)
qed

lemma requires_grad_loop_key_error:
  "\<not> set names \<subseteq> dom (map_of nets) \<Longrightarrow>
   \<exists>k s'. k \<in> set names \<and> map_of nets k = None \<and>
           requires_grad_loop nets flag names s = (Inl (KeyError k), s')"
proof (induction names arbitrary: s)
  case Nil
  then show ?case by simp
next
  case (Cons n names)
  show ?case
  proof (cases "map_of nets n")
    case None
    then show ?thesis by auto
  next
    case (Some m)
    then have "\<not> set names \<subseteq> dom (map_of nets)" using Cons.prems by auto
    from Cons.IH [OF this, of "s\<lparr>store := module_requires_grad m flag (store s)\<rparr>"]
    obtain k s' where "k \<in> set names" "map_of nets k = None"
      "requires_grad_loop nets flag names (s\<lparr>store := module_requires_grad m flag (store s)\<rparr>)
         = (Inl (KeyError k), s')" by blast
    then show ?thesis using Some by (intro exI [of _ k] exI [of _ s']) simp
  qed
qed

text \<open>
  Claim C6: for names that are keys of the subclass's subnetwork map,
  \<open>freeze_subnetworks(names)\<close> followed by \<open>unfreeze_subnetworks(names)\<close> returns
  normally both times, and afterwards every parameter of every named subnetwork has its
  gradient flag enabled (after the first call alone it is disabled). Parameters shared
  between subnetworks are covered: the flags live in the store.
\<close>

theorem freeze_then_unfreeze:
  assumes "subnetworks s = Some nets" and "set names \<subseteq> fst ` set nets"
  shows "\<exists>s1 s2. freeze_subnetworks names s = (Inr (), s1) \<and>
           unfreeze_subnetworks names s1 = (Inr (), s2) \<and>
           (\<forall>n\<in>set names. \<forall>m. map_of nets n = Some m \<longrightarrow>
              (\<forall>a\<in>set (parameters m).
                 requires_grad (store s1 a) = False \<and> requires_grad (store s2 a) = True))"
proof -
  have dom: "set names \<subseteq> dom (map_of nets)"
    using assms(2) by (simp add: dom_map_of_conv_image_fst)
  let ?s0 = "print (Call_freeze_subnetworks names) s"
  let ?s1 = "?s0\<lparr>store := (\<lambda>x. if x \<in> touched nets names
                              then (store ?s0 x)\<lparr>requires_grad := False\<rparr> else store ?s0 x)\<rparr>"
  let ?s2 = "?s1\<lparr>store := (\<lambda>x. if x \<in> touched nets names
                              then (store ?s1 x)\<lparr>requires_grad := True\<rparr> else store ?s1 x)\<rparr>"
  have f: "freeze_subnetworks names s = (Inr (), ?s1)"
    using assms(1) requires_grad_loop_result [OF dom, of False ?s0]
    by (simp add: freeze_subnetworks_def get_subnetworks_def print_def Let_def)
  have u: "unfreeze_subnetworks names ?s1 = (Inr (), ?s2)"
    using assms(1) requires_grad_loop_result [OF dom, of True ?s1]
    by (simp add: unfreeze_subnetworks_def get_subnetworks_def print_def)
  have t: "\<And>n m a. n \<in> set names \<Longrightarrow> map_of nets n = Some m \<Longrightarrow> a \<in> set (parameters m) \<Longrightarrow>
             a \<in> touched nets names"
    by (force simp: touched_def)
  have "\<forall>n\<in>set names. \<forall>m. map_of nets n = Some m \<longrightarrow>
          (\<forall>a\<in>set (parameters m).
             requires_grad (store ?s1 a) = False \<and> requires_grad (store ?s2 a) = True)"
    using t by simp
  with f u show ?thesis by blast
qed

text \<open>
  Claim C6 on the example object: freezing and unfreezing \<open>enc\<close> and \<open>dec\<close> disables
  and then enables the flags of their parameters, at addresses 0 and 1.
\<close>

theorem freeze_then_unfreeze_witness:
  "\<exists>s1 s2. freeze_subnetworks [''enc'', ''dec''] example_state = (Inr (), s1) \<and>
     unfreeze_subnetworks [''enc'', ''dec''] s1 = (Inr (), s2) \<and>
     requires_grad (store s1 0) = False \<and> requires_grad (store s1 1) = False \<and>
     requires_grad (store s2 0) = True \<and> requires_grad (store s2 1) = True"
proof -
  let ?nets = "[(''enc'', Module [(''w'', 0)]), (''dec'', Module [(''b'', 1)])]"
  have a: "subnetworks example_state = Some ?nets" by (simp add: example_state_def)
  have b: "set [''enc'', ''dec''] \<subseteq> fst ` set ?nets" by simp
  from freeze_then_unfreeze [OF a b] obtain s1 s2 where
    f: "freeze_subnetworks [''enc'', ''dec''] example_state = (Inr (), s1)" and
    u: "unfreeze_subnetworks [''enc'', ''dec''] s1 = (Inr (), s2)" and
    g: "\<forall>n\<in>set [''enc'', ''dec'']. \<forall>m. map_of ?nets n = Some m \<longrightarrow>
          (\<forall>a\<in>set (parameters m).
             requires_grad (store s1 a) = False \<and> requires_grad (store s2 a) = True)"
    by blast
  have e: "requires_grad (store s1 0) = False \<and> requires_grad (store s2 0) = True"
    using g by (simp add: parameters_def)
  have d: "requires_grad (store s1 1) = False \<and> requires_grad (store s2 1) = True"
    using g by (simp add: parameters_def)
  from f u e d show ?thesis by blast
qed

section \<open>Stepping the schedulers\<close>

lemma step_schedulers_result:
  "step_schedulers scs ops = (scs', ops') \<Longrightarrow>
     scs' = map (\<lambda>sc. sc\<lparr>last_epoch := Suc (last_epoch sc)\<rparr>) scs \<and> length ops' = length ops"
proof (induction scs arbitrary: ops scs' ops')
  case Nil
  then show ?case by simp
next
  case (Cons sc scs)
  obtain sc1 ops1 where s1: "scheduler_step sc ops = (sc1, ops1)"
    by (cases "scheduler_step sc ops")
  obtain scs2 ops2 where s2: "step_schedulers scs ops1 = (scs2, ops2)"
    by (cases "step_schedulers scs ops1")
  have r: "scs' = sc1 # scs2" "ops' = ops2" using Cons.prems s1 s2 by simp_all
  have h: "sc1 = sc\<lparr>last_epoch := Suc (last_epoch sc)\<rparr>" "length ops1 = length ops"
    using s1 by (auto simp: scheduler_step_def Let_def split: if_splits)
  from Cons.IH [OF s2] r h show ?case by simp
qed

lemma report_learning_rates_eq:
  "report_learning_rates verbose xs s =
     s\<lparr>stdout := stdout s @
        (if verbose then map (\<lambda>(i, optim). PrintLearningRate (i + 1) (lr optim)) xs else [])\<rparr>"
  by (induction verbose xs s rule: report_learning_rates.induct) (auto simp: print_def)

text \<open>
  Claim C7: a call to \<open>update_learning_rate\<close> on an object that has its schedulers and
  optimizers returns normally; afterwards every scheduler has taken exactly one more step
  (the list of schedulers is the old one with each step count increased by one), and what
  is printed, when \<open>verbose\<close>, is one line per optimizer, numbered from 1, with the
  learning rate that optimizer has after all the steps; nothing is printed otherwise.
\<close>

theorem update_learning_rate_steps_once:
  assumes "schedulers s = Some scs" and "optimizers s = Some ops"
  shows "\<exists>ops'. ops' = snd (step_schedulers scs ops) \<and> length ops' = length ops \<and>
           update_learning_rate verbose s =
             (Inr (), s\<lparr>schedulers := Some (map (\<lambda>sc. sc\<lparr>last_epoch := Suc (last_epoch sc)\<rparr>) scs),
                        optimizers := Some ops',
                        stdout := stdout s @
                          (if verbose
                           then map (\<lambda>(i, optim). PrintLearningRate (i + 1) (lr optim))
                                  (enumerate 0 ops')
                           else [])\<rparr>)"
proof -
  obtain scs' ops' where st: "step_schedulers scs ops = (scs', ops')"
    by (cases "step_schedulers scs ops")
  have 1: "scs' = map (\<lambda>sc. sc\<lparr>last_epoch := Suc (last_epoch sc)\<rparr>) scs"
    using step_schedulers_result [OF st] by simp
  have 2: "length ops' = length ops"
    using step_schedulers_result [OF st] by simp
  have "update_learning_rate verbose s =
          (Inr (), report_learning_rates verbose (enumerate 0 ops')
                     (s\<lparr>schedulers := Some scs', optimizers := Some ops'\<rparr>))"
    using assms st by (simp add: update_learning_rate_def)
  then show ?thesis
    using 1 2 st by (simp add: report_learning_rates_eq)
qed

text \<open>
  Claim C7 on the example object with one scheduler that has taken four steps: the call
  makes it five, sets the optimizer's rate to that of step five, and prints that rate.
\<close>

theorem update_learning_rate_steps_once_witness:
  "update_learning_rate True
     (example_state\<lparr>schedulers :=
        Some [\<lparr>sched_optimizer = 0, last_epoch = 4, lr_lambda = (\<lambda>n. 1 / of_nat n)\<rparr>]\<rparr>)
   = (Inr (), example_state\<lparr>schedulers :=
        Some [\<lparr>sched_optimizer = 0, last_epoch = 5, lr_lambda = (\<lambda>n. 1 / of_nat n)\<rparr>],
        optimizers := Some [\<lparr>lr = 1 / 5\<rparr>],
        stdout := [PrintLearningRate 1 (1 / 5)]\<rparr>)"
proof -
  let ?s = "example_state\<lparr>schedulers :=
        Some [\<lparr>sched_optimizer = 0, last_epoch = 4, lr_lambda = (\<lambda>n. 1 / of_nat n)\<rparr>]\<rparr>"
  have a: "schedulers ?s = Some [\<lparr>sched_optimizer = 0, last_epoch = 4, lr_lambda = (\<lambda>n. 1 / of_nat n)\<rparr>]"
    by simp
  have b: "optimizers ?s = Some [\<lparr>lr = 1\<rparr>]" by (simp add: example_state_def)
  show ?thesis
    using update_learning_rate_steps_once [OF a b, of True]
    by (simp add: scheduler_step_def example_state_def)
qed

section \<open>Saving checkpoints\<close>

lemmas eval_strings =
  path_join_def under_directory_def startswith_sep_def endswith_sep_def
  states_filename_def net_filename_def subnet_filename_def
  str_epoch_def str_int_def str_nat.simps digit_char_def str_name_def

lemma path_join_under:
  "\<not> startswith_sep f \<Longrightarrow> path_join d f = under_directory d f"
  by (simp add: path_join_def under_directory_def)

lemma torch_save_cases:
  "torch_save obj p s =
     (if p \<in> unwritable s then (Inl (SaveError p), s)
      else (Inr (), s\<lparr>files := (files s)(p \<mapsto> obj)\<rparr>))"
  by (simp add: torch_save_def)

lemma save_networks_loop_Cons:
  "save_networks_loop ep ((n, net) # xs) s =
     (if path_join (save_dir s) (net_filename ep n) \<in> unwritable s
      then save_networks_loop ep xs
             (print (PrintException (SaveError (path_join (save_dir s) (net_filename ep n)))) s)
      else save_networks_loop ep xs
             (s\<lparr>files := (files s)(path_join (save_dir s) (net_filename ep n) \<mapsto>
                     module_state_dict (unwrap net) (store s))\<rparr>))"
  by (simp add: torch_save_def Let_def)

lemma save_subnetworks_loop_Cons:
  "save_subnetworks_loop ep ((n, net) # xs) s =
     (if path_join (save_dir s) (subnet_filename ep n) \<in> unwritable s
      then save_subnetworks_loop ep xs
             (print (PrintException (SaveError (path_join (save_dir s) (subnet_filename ep n)))) s)
      else save_subnetworks_loop ep xs
             (s\<lparr>files := (files s)(path_join (save_dir s) (subnet_filename ep n) \<mapsto>
                     module_state_dict (unwrap net) (store s))\<rparr>))"
  by (simp add: torch_save_def Let_def)

lemma save_networks_loop_frame:
  "save_dir (save_networks_loop ep xs s) = save_dir s \<and>
   unwritable (save_networks_loop ep xs s) = unwritable s \<and>
   store (save_networks_loop ep xs s) = store s"
proof (induction xs arbitrary: s)
  case Nil
  then show ?case by simp
next
  case (Cons x xs)
  obtain n net where x: "x = (n, net)" by (cases x)
  show ?case
    unfolding x save_networks_loop_Cons save_subnetworks_loop_Cons
    by (simp add: Cons.IH print_def)
qed

lemma save_networks_loop_stdout:
  "stdout (save_networks_loop ep xs s) =
     stdout s @ map (\<lambda>p. PrintException (SaveError p))
       (filter (\<lambda>p. p \<in> unwritable s)
          (map (\<lambda>(n, net). path_join (save_dir s) (net_filename ep n)) xs))"
proof (induction xs arbitrary: s)
  case Nil
  then show ?case by simp
next
  case (Cons x xs)
  obtain n net where x: "x = (n, net)" by (cases x)
  show ?case
    unfolding x save_networks_loop_Cons save_subnetworks_loop_Cons
    by (simp add: Cons.IH print_def)
qed

lemma save_networks_loop_dom:
  "dom (files (save_networks_loop ep xs s)) =
     dom (files s) \<union>
       (set (map (\<lambda>(n, net). path_join (save_dir s) (net_filename ep n)) xs) - unwritable s)"
proof (induction xs arbitrary: s)
  case Nil
  then show ?case by simp
next
  case (Cons x xs)
  obtain n net where x: "x = (n, net)" by (cases x)
  show ?case
    unfolding x save_networks_loop_Cons save_subnetworks_loop_Cons
    by (auto simp: Cons.IH print_def dom_if split: if_splits)
qed

lemma save_subnetworks_loop_frame:
  "save_dir (save_subnetworks_loop ep xs s) = save_dir s \<and>
   unwritable (save_subnetworks_loop ep xs s) = unwritable s \<and>
   store (save_subnetworks_loop ep xs s) = store s"
proof (induction xs arbitrary: s)
  case Nil
  then show ?case by simp
next
  case (Cons x xs)
  obtain n net where x: "x = (n, net)" by (cases x)
  show ?case
    unfolding x save_networks_loop_Cons save_subnetworks_loop_Cons
    by (simp add: Cons.IH print_def)
qed

lemma save_subnetworks_loop_stdout:
  "stdout (save_subnetworks_loop ep xs s) =
     stdout s @ map (\<lambda>p. PrintException (SaveError p))
       (filter (\<lambda>p. p \<in> unwritable s)
          (map (\<lambda>(n, net). path_join (save_dir s) (subnet_filename ep n)) xs))"
proof (induction xs arbitrary: s)
  case Nil
  then show ?case by simp
next
  case (Cons x xs)
  obtain n net where x: "x = (n, net)" by (cases x)
  show ?case
    unfolding x save_networks_loop_Cons save_subnetworks_loop_Cons
    by (simp add: Cons.IH print_def)
qed

lemma save_subnetworks_loop_dom:
  "dom (files (save_subnetworks_loop ep xs s)) =
     dom (files s) \<union>
       (set (map (\<lambda>(n, net). path_join (save_dir s) (subnet_filename ep n)) xs) - unwritable s)"
proof (induction xs arbitrary: s)
  case Nil
  then show ?case by simp
next
  case (Cons x xs)
  obtain n net where x: "x = (n, net)" by (cases x)
  show ?case
    unfolding x save_networks_loop_Cons save_subnetworks_loop_Cons
    by (auto simp: Cons.IH print_def dom_if split: if_splits)
qed

lemma get_networks_length:
  "get_networks s = Inr nets \<Longrightarrow> length nets = length (model_names s)"
  unfolding get_networks_def by (drule get_networks_loop_length) simp

lemma map_fst_zip_names:
  "length nets = length names \<Longrightarrow> map (\<lambda>(n, net). f n) (zip names nets) = map f names"
  by (induction names nets rule: list_induct2') auto

lemma digit_char_not_sep: "digit_char d \<noteq> CHR ''/''"
  by (simp add: digit_char_def)

lemma str_nat_head: "str_nat n \<noteq> [] \<and> hd (str_nat n) \<noteq> CHR ''/''"
proof (induction n rule: str_nat.induct)
  case (1 n)
  show ?case
  proof (cases "n < 10")
    case True
    then show ?thesis by (simp add: str_nat.simps [of n] digit_char_not_sep)
  next
    case False
    with 1 show ?thesis by (simp add: str_nat.simps [of n])
  qed
qed

lemma numeric_epoch_not_absolute: "\<not> startswith_sep (str_epoch (EpochInt i))"
  using str_nat_head by (simp add: startswith_sep_def str_epoch_def str_int_def)

lemma filename_not_absolute:
  "\<not> startswith_sep e \<Longrightarrow> \<not> startswith_sep (e @ CHR ''_'' # r)"
  by (cases e) (auto simp: startswith_sep_def)

text \<open>
  Claim C2, as the spec states it: an exception raised while serializing during
  \<open>save_networks\<close> or \<open>save_subnetworks\<close> never reaches the caller, and the save call
  always returns normally. It does not hold for \<open>save_networks\<close>: the write of the
  other-states file stands outside the \<open>try\<close> block, so its exception reaches the caller;
  and a registered name without its attribute makes \<open>get_networks\<close>, which
  \<open>save_networks\<close> calls first, raise.
\<close>

theorem save_networks_raises_counterexample:
  "fst (save_networks (EpochInt 7) [] (example_state\<lparr>unwritable := {''ckpt/exp/7_states.pth''}\<rparr>))
     = Inl (SaveError ''ckpt/exp/7_states.pth'') \<and>
   fst (save_networks (EpochInt 7) [] (example_state\<lparr>model_names := [PyStr ''X'']\<rparr>))
     = Inl (AttributeError ''net_X'')"
  by (simp add: save_networks_def get_networks_def example_state_def torch_save_def Let_def
        path_join_def startswith_sep_def endswith_sep_def states_filename_def net_filename_def
        str_epoch_def str_int_def str_nat.simps digit_char_def str_name_def)

text \<open>
  Claim C2, amended: an exception raised while serializing one of the registered networks
  (\<open>save_networks\<close>) or one of the subnetworks (\<open>save_subnetworks\<close>) is caught and
  printed, and the loop goes on: what is printed is one line for every path that could
  not be written, in order. \<open>save_subnetworks\<close> returns normally whenever
  \<open>get_subnetworks\<close> does; \<open>save_networks\<close> returns normally whenever
  \<open>get_networks\<close> does and the write of the other-states file raises nothing.
\<close>

theorem save_exceptions_caught:
  "(subnetworks s = Some subs \<longrightarrow>
      (\<exists>s'. save_subnetworks ep s = (Inr (), s') \<and>
            stdout s' = stdout s @ map (\<lambda>p. PrintException (SaveError p))
              (filter (\<lambda>p. p \<in> unwritable s)
                 (map (\<lambda>(n, net). path_join (save_dir s) (subnet_filename ep n)) subs)))) \<and>
   (get_networks s = Inr nets \<and> path_join (save_dir s) (states_filename ep) \<notin> unwritable s \<longrightarrow>
      (\<exists>s'. save_networks ep other_states s = (Inr (), s') \<and>
            stdout s' = stdout s @ map (\<lambda>p. PrintException (SaveError p))
              (filter (\<lambda>p. p \<in> unwritable s)
                 (map (\<lambda>n. path_join (save_dir s) (net_filename ep n)) (model_names s)))))"
proof (intro conjI impI)
  assume "subnetworks s = Some subs"
  then show "\<exists>s'. save_subnetworks ep s = (Inr (), s') \<and>
            stdout s' = stdout s @ map (\<lambda>p. PrintException (SaveError p))
              (filter (\<lambda>p. p \<in> unwritable s)
                 (map (\<lambda>(n, net). path_join (save_dir s) (subnet_filename ep n)) subs))"
    by (simp add: save_subnetworks_def get_subnetworks_def save_subnetworks_loop_stdout)
next
  assume a: "get_networks s = Inr nets \<and> path_join (save_dir s) (states_filename ep) \<notin> unwritable s"
  then have len: "length nets = length (model_names s)" by (simp add: get_networks_length)
  let ?s1 = "save_networks_loop ep (zip (model_names s) nets) s"
  have "save_networks ep other_states s =
          (Inr (), ?s1\<lparr>files := (files ?s1)(path_join (save_dir s) (states_filename ep) \<mapsto> other_states)\<rparr>)"
    using a by (simp add: save_networks_def torch_save_def save_networks_loop_frame Let_def)
  moreover have "stdout ?s1 = stdout s @ map (\<lambda>p. PrintException (SaveError p))
              (filter (\<lambda>p. p \<in> unwritable s)
                 (map (\<lambda>n. path_join (save_dir s) (net_filename ep n)) (model_names s)))"
    by (simp add: save_networks_loop_stdout map_fst_zip_names [OF len])
  ultimately show "\<exists>s'. save_networks ep other_states s = (Inr (), s') \<and>
            stdout s' = stdout s @ map (\<lambda>p. PrintException (SaveError p))
              (filter (\<lambda>p. p \<in> unwritable s)
                 (map (\<lambda>n. path_join (save_dir s) (net_filename ep n)) (model_names s)))"
    by simp
qed

text \<open>
  The amended claim on the example object, when neither \<open>7_subnet_enc.pth\<close> nor
  \<open>7_net_G.pth\<close> can be written: both calls return normally and print the exception.
\<close>

theorem save_exceptions_caught_witness:
  "(\<exists>s'. save_subnetworks (EpochInt 7) (example_state\<lparr>unwritable := {''ckpt/exp/7_subnet_enc.pth'', ''ckpt/exp/7_net_G.pth''}\<rparr>) = (Inr (), s') \<and>
         stdout s' = [PrintException (SaveError ''ckpt/exp/7_subnet_enc.pth'')]) \<and>
   (\<exists>s'. save_networks (EpochInt 7) [] (example_state\<lparr>unwritable := {''ckpt/exp/7_subnet_enc.pth'', ''ckpt/exp/7_net_G.pth''}\<rparr>) = (Inr (), s') \<and>
         stdout s' = [PrintException (SaveError ''ckpt/exp/7_net_G.pth'')])"
proof -
  let ?s = "example_state\<lparr>unwritable := {''ckpt/exp/7_subnet_enc.pth'', ''ckpt/exp/7_net_G.pth''}\<rparr>"
  let ?subs = "[(''enc'', Module [(''w'', 0)]), (''dec'', Module [(''b'', 1)])]"
  let ?nets = "[Module [(''w'', 0), (''b'', 1)], DataParallel (Module [(''w'', 2)])]"
  have a: "subnetworks ?s = Some ?subs" by (simp add: example_state_def)
  have b: "get_networks ?s = Inr ?nets \<and>
           path_join (save_dir ?s) (states_filename (EpochInt 7)) \<notin> unwritable ?s"
    by (simp add: get_networks_def example_state_def eval_strings)
  from save_exceptions_caught [of ?s ?subs "EpochInt 7" ?nets "[]"] a b show ?thesis
    by (simp add: example_state_def eval_strings)
qed

text \<open>
  Claim C8, as the spec states it: for every epoch and name the checkpoint files are
  written under \<open>checkpoints_dir/name/\<close>. It does not hold for an epoch label or an
  experiment name that starts with a path separator: \<open>os.path.join\<close> then drops the
  directory before it.
\<close>

theorem checkpoint_outside_directory_counterexample:
  "save_dir example_state = ''ckpt/exp'' \<and>
   dom (files (snd (save_networks (EpochStr ''/tmp/x'') [] example_state)))
     = {''/tmp/x_net_G.pth'', ''/tmp/x_net_D.pth'', ''/tmp/x_states.pth''} \<and>
   save_dir (initialize (example_options\<lparr>opt_name := ''/abs''\<rparr>) example_state) = ''/abs''"
  by (simp add: save_networks_def get_networks_def example_state_def example_options_def
        torch_save_def Let_def initialize_def
        path_join_def startswith_sep_def endswith_sep_def states_filename_def net_filename_def
        str_epoch_def str_name_def insert_commute)

text \<open>
  Claim C8, amended: when the experiment name does not start with \<open>/\<close>, the save
  directory is \<open>checkpoints_dir/name\<close>; when the formatted epoch does not start with
  \<open>/\<close> (a numeric epoch never does), the files that \<open>save_networks\<close> and
  \<open>save_subnetworks\<close> add are exactly the writable ones among
  \<open>save_dir/{epoch}_net_{name}.pth\<close> for the registered networks,
  \<open>save_dir/{epoch}_states.pth\<close>, and \<open>save_dir/{epoch}_subnet_{name}.pth\<close> for the
  subnetworks.
\<close>

theorem checkpoint_file_paths:
  "(\<not> startswith_sep (opt_name o') \<longrightarrow>
      save_dir (initialize o' s0) = under_directory (opt_checkpoints_dir o') (opt_name o')) \<and>
   \<not> startswith_sep (str_epoch (EpochInt i)) \<and>
   (\<not> startswith_sep (str_epoch ep) \<longrightarrow>
      (get_networks s = Inr nets \<longrightarrow>
         dom (files (snd (save_networks ep other_states s))) =
           dom (files s) \<union>
             ((set (map (\<lambda>n. under_directory (save_dir s)
                               (str_epoch ep @ ''_net_'' @ str_name n @ ''.pth''))
                      (model_names s)) \<union>
               {under_directory (save_dir s) (str_epoch ep @ ''_states.pth'')}) - unwritable s)) \<and>
      (subnetworks s = Some subs \<longrightarrow>
         dom (files (snd (save_subnetworks ep s))) =
           dom (files s) \<union>
             (set (map (\<lambda>(n, net). under_directory (save_dir s)
                                     (str_epoch ep @ ''_subnet_'' @ n @ ''.pth''))
                     subs) - unwritable s)))"
proof (intro conjI impI)
  show "\<not> startswith_sep (str_epoch (EpochInt i))" by (rule numeric_epoch_not_absolute)
next
  assume "\<not> startswith_sep (opt_name o')"
  then show "save_dir (initialize o' s0) = under_directory (opt_checkpoints_dir o') (opt_name o')"
    by (simp add: initialize_def path_join_under)
next
  assume e: "\<not> startswith_sep (str_epoch ep)" and g: "get_networks s = Inr nets"
  have len: "length nets = length (model_names s)" using g by (rule get_networks_length)
  have n: "\<And>n. path_join (save_dir s) (net_filename ep n)
              = under_directory (save_dir s) (str_epoch ep @ ''_net_'' @ str_name n @ ''.pth'')"
    using filename_not_absolute [OF e] by (simp add: net_filename_def path_join_under)
  have st: "path_join (save_dir s) (states_filename ep)
              = under_directory (save_dir s) (str_epoch ep @ ''_states.pth'')"
    using filename_not_absolute [OF e] by (simp add: states_filename_def path_join_under)
  let ?s1 = "save_networks_loop ep (zip (model_names s) nets) s"
  have d1: "dom (files ?s1) = dom (files s) \<union>
       (set (map (\<lambda>n. path_join (save_dir s) (net_filename ep n)) (model_names s)) - unwritable s)"
    by (simp only: save_networks_loop_dom map_fst_zip_names [OF len])
  have "dom (files (snd (save_networks ep other_states s))) =
          dom (files ?s1) \<union> ({path_join (save_dir s) (states_filename ep)} - unwritable s)"
    using g by (auto simp: save_networks_def torch_save_def save_networks_loop_frame Let_def)
  then show "dom (files (snd (save_networks ep other_states s))) =
           dom (files s) \<union>
             ((set (map (\<lambda>n. under_directory (save_dir s)
                               (str_epoch ep @ ''_net_'' @ str_name n @ ''.pth''))
                      (model_names s)) \<union>
               {under_directory (save_dir s) (str_epoch ep @ ''_states.pth'')}) - unwritable s)"
    unfolding d1 n st by auto
next
  assume e: "\<not> startswith_sep (str_epoch ep)" and g: "subnetworks s = Some subs"
  have n: "\<And>n. path_join (save_dir s) (subnet_filename ep n)
              = under_directory (save_dir s) (str_epoch ep @ ''_subnet_'' @ n @ ''.pth'')"
    using filename_not_absolute [OF e] by (simp add: subnet_filename_def path_join_under)
  show "dom (files (snd (save_subnetworks ep s))) =
           dom (files s) \<union>
             (set (map (\<lambda>(n, net). under_directory (save_dir s)
                                     (str_epoch ep @ ''_subnet_'' @ n @ ''.pth''))
                     subs) - unwritable s)"
    using g by (simp add: save_subnetworks_def get_subnetworks_def save_subnetworks_loop_dom n)
qed

text \<open>
  The amended claim on the example object: the three files of \<open>save_networks\<close> at epoch
  7 and the two of \<open>save_subnetworks\<close> at epoch \<open>latest\<close>, all under \<open>ckpt/exp\<close>.
\<close>

theorem checkpoint_file_paths_witness:
  "save_dir (initialize example_options example_state) = ''ckpt/exp'' \<and>
   dom (files (snd (save_networks (EpochInt 7) [] example_state)))
     = {''ckpt/exp/7_net_G.pth'', ''ckpt/exp/7_net_D.pth'', ''ckpt/exp/7_states.pth''} \<and>
   dom (files (snd (save_subnetworks (EpochStr ''latest'') example_state)))
     = {''ckpt/exp/latest_subnet_enc.pth'', ''ckpt/exp/latest_subnet_dec.pth''}"
proof -
  let ?subs = "[(''enc'', Module [(''w'', 0)]), (''dec'', Module [(''b'', 1)])]"
  let ?nets = "[Module [(''w'', 0), (''b'', 1)], DataParallel (Module [(''w'', 2)])]"
  have n: "\<not> startswith_sep (opt_name example_options)"
    by (simp add: example_options_def startswith_sep_def)
  have g: "get_networks example_state = Inr ?nets"
    by (simp add: get_networks_def example_state_def)
  have u: "subnetworks example_state = Some ?subs" by (simp add: example_state_def)
  have e7: "\<not> startswith_sep (str_epoch (EpochInt 7))" by (simp add: eval_strings)
  have el: "\<not> startswith_sep (str_epoch (EpochStr ''latest''))" by (simp add: eval_strings)
  have 1: "save_dir (initialize example_options example_state) = ''ckpt/exp''"
    using checkpoint_file_paths [of example_options example_state 0 "EpochInt 7" example_state ?nets "[]" ?subs] n
    by (simp add: example_options_def eval_strings)
  have 2: "dom (files (snd (save_networks (EpochInt 7) [] example_state)))
     = {''ckpt/exp/7_net_G.pth'', ''ckpt/exp/7_net_D.pth'', ''ckpt/exp/7_states.pth''}"
    using checkpoint_file_paths [of example_options example_state 0 "EpochInt 7" example_state ?nets "[]" ?subs] e7 g
    by (simp add: example_state_def eval_strings insert_commute)
  have 3: "dom (files (snd (save_subnetworks (EpochStr ''latest'') example_state)))
     = {''ckpt/exp/latest_subnet_enc.pth'', ''ckpt/exp/latest_subnet_dec.pth''}"
    using checkpoint_file_paths [of example_options example_state 0 "EpochStr ''latest''" example_state ?nets "[]" ?subs] el u
    by (simp add: example_state_def eval_strings insert_commute)
  from 1 2 3 show ?thesis by simp
qed

section \<open>Loading checkpoints\<close>

lemma print_frame:
  "opt (print e s) = opt s" "files (print e s) = files s" "store (print e s) = store s"
  "subnetworks (print e s) = subnetworks s" "attrs (print e s) = attrs s"
  "model_names (print e s) = model_names s" "is_train (print e s) = is_train s"
  "optimizers (print e s) = optimizers s" "schedulers (print e s) = schedulers s"
  "unwritable (print e s) = unwritable s" "save_dir (print e s) = save_dir s"
  "stdout (print e s) = stdout s @ [e]"
  by (simp_all add: print_def)

lemma load_state_dict_eq:
  "load_state_dict net sd strict s =
     (if strict \<and> \<not> keys_match net sd then Inl RuntimeError else Inr (),
      s\<lparr>store := copy_params net sd (store s)\<rparr>)"
  by (simp add: load_state_dict_def keys_match_def Let_def)

lemma keys_match_iff:
  "keys_match net sd \<longleftrightarrow> set (map fst sd) = set (map fst (named_parameters net))"
proof -
  have m: "missing_keys net sd = [] \<longleftrightarrow> set (map fst (named_parameters net)) \<subseteq> set (map fst sd)"
    by (auto simp: missing_keys_def filter_empty_conv map_of_eq_None_iff)
  have u: "unexpected_keys net sd = [] \<longleftrightarrow> set (map fst sd) \<subseteq> set (map fst (named_parameters net))"
    by (auto simp: unexpected_keys_def filter_empty_conv)
  show ?thesis unfolding keys_match_def m u by blast
qed

lemma load_dir_frame:
  "load_dir rd (print e s) = load_dir rd s"
  "load_dir rd (s\<lparr>store := st\<rparr>) = load_dir rd s"
  "load_dir rd (s\<lparr>stdout := out\<rparr>) = load_dir rd s"
  by (simp_all add: load_dir_def print_def split: option.splits)

lemma found_Cons:
  "subnet_checkpoints_found ep names d fs ((n, net) # networks) =
     (if n \<in> names then
        (case fs (path_join d (subnet_filename ep n)) of
           None \<Rightarrow> subnet_checkpoints_found ep names d fs networks
         | Some sd \<Rightarrow> (net, sd) # subnet_checkpoints_found ep names d fs networks)
      else subnet_checkpoints_found ep names d fs networks)"
  by (simp add: subnet_checkpoints_found_def split: option.splits)

lemma missing_Cons:
  "subnet_checkpoints_missing ep names d fs ((n, net) # networks) =
     (if n \<in> names \<and> fs (path_join d (subnet_filename ep n)) = None
      then path_join d (subnet_filename ep n) # subnet_checkpoints_missing ep names d fs networks
      else subnet_checkpoints_missing ep names d fs networks)"
  by (simp add: subnet_checkpoints_missing_def)

lemma found_Nil: "subnet_checkpoints_found ep names d fs [] = []"
  by (simp add: subnet_checkpoints_found_def)

lemma missing_Nil: "subnet_checkpoints_missing ep names d fs [] = []"
  by (simp add: subnet_checkpoints_missing_def)

lemma load_subnetworks_loop_ok:
  assumes "load_dir resume_dir s = Some d"
    and "\<forall>(net, sd)\<in>set (subnet_checkpoints_found ep names d (files s) networks). keys_match (unwrap net) sd"
  shows "load_subnetworks_loop ep names resume_dir networks s =
     (Inr (), s\<lparr>stdout := stdout s @ map PrintCannotLoad (subnet_checkpoints_missing ep names d (files s) networks),
               store := copy_all (subnet_checkpoints_found ep names d (files s) networks) (store s)\<rparr>)"
  using assms
proof (induction networks arbitrary: s)
  case Nil
  then show ?case by (simp add: found_Nil missing_Nil copy_all_def)
next
  case (Cons x networks)
  obtain n net where x: "x = (n, net)" by (cases x)
  show ?case
  proof (cases "n \<in> names")
    case False
    then show ?thesis using Cons unfolding x by (simp add: found_Cons missing_Cons)
  next
    case True
    show ?thesis
    proof (cases "files s (path_join d (subnet_filename ep n))")
      case None
      let ?s' = "print (PrintCannotLoad (path_join d (subnet_filename ep n))) s"
      have d': "load_dir resume_dir ?s' = Some d"
        using Cons.prems(1) by (simp add: load_dir_frame)
      have k': "\<forall>(net, sd)\<in>set (subnet_checkpoints_found ep names d (files ?s') networks). keys_match (unwrap net) sd"
        using Cons.prems(2) True None unfolding x by (simp add: found_Cons print_def)
      show ?thesis
        using Cons.IH [OF d' k'] Cons.prems(1) True None unfolding x
        by (simp add: found_Cons missing_Cons os_path_join_def print_def)
    next
      case (Some sd)
      let ?s' = "s\<lparr>store := copy_params (unwrap net) sd (store s)\<rparr>"
      have d': "load_dir resume_dir ?s' = Some d"
        using Cons.prems(1) by (simp add: load_dir_frame)
      have k: "keys_match (unwrap net) sd"
        using Cons.prems(2) True Some unfolding x by (simp add: found_Cons)
      have k': "\<forall>(net, sd)\<in>set (subnet_checkpoints_found ep names d (files ?s') networks). keys_match (unwrap net) sd"
        using Cons.prems(2) True Some unfolding x by (simp add: found_Cons)
      show ?thesis
        using Cons.IH [OF d' k'] Cons.prems(1) True Some k unfolding x
        by (simp add: found_Cons missing_Cons os_path_join_def load_state_dict_eq copy_all_def)
    qed
  qed
qed

lemma load_subnetworks_loop_strict:
  assumes "load_dir resume_dir s = Some d"
    and "\<not> (\<forall>(net, sd)\<in>set (subnet_checkpoints_found ep names d (files s) networks). keys_match (unwrap net) sd)"
  shows "fst (load_subnetworks_loop ep names resume_dir networks s) = Inl RuntimeError"
  using assms
proof (induction networks arbitrary: s)
  case Nil
  then show ?case by (simp add: found_Nil)
next
  case (Cons x networks)
  obtain n net where x: "x = (n, net)" by (cases x)
  show ?case
  proof (cases "n \<in> names")
    case False
    then show ?thesis using Cons unfolding x by (simp add: found_Cons)
  next
    case True
    show ?thesis
    proof (cases "files s (path_join d (subnet_filename ep n))")
      case None
      let ?s' = "print (PrintCannotLoad (path_join d (subnet_filename ep n))) s"
      have d': "load_dir resume_dir ?s' = Some d"
        using Cons.prems(1) by (simp add: load_dir_frame)
      have k': "\<not> (\<forall>(net, sd)\<in>set (subnet_checkpoints_found ep names d (files ?s') networks). keys_match (unwrap net) sd)"
        using Cons.prems(2) True None unfolding x by (simp add: found_Cons print_def)
      show ?thesis
        using Cons.IH [OF d' k'] Cons.prems(1) True None unfolding x
        by (simp add: os_path_join_def)
    next
      case (Some sd)
      let ?s' = "s\<lparr>store := copy_params (unwrap net) sd (store s)\<rparr>"
      show ?thesis
      proof (cases "keys_match (unwrap net) sd")
        case False
        then show ?thesis using Cons.prems(1) True Some unfolding x
          by (simp add: os_path_join_def load_state_dict_eq)
      next
        case k: True
        have d': "load_dir resume_dir ?s' = Some d"
          using Cons.prems(1) by (simp add: load_dir_frame)
        have k': "\<not> (\<forall>(net, sd)\<in>set (subnet_checkpoints_found ep names d (files ?s') networks). keys_match (unwrap net) sd)"
          using Cons.prems(2) True Some k unfolding x by (simp add: found_Cons)
        show ?thesis
          using Cons.IH [OF d' k'] Cons.prems(1) True Some k unfolding x
          by (simp add: os_path_join_def load_state_dict_eq)
      qed
    qed
  qed
qed

lemma net_found_Nil: "net_checkpoints_found ep d fs [] = []"
  by (simp add: net_checkpoints_found_def)

lemma net_found_Cons:
  "net_checkpoints_found ep d fs ((n, net) # nets) =
     (case fs (path_join d (net_filename ep n)) of
        None \<Rightarrow> net_checkpoints_found ep d fs nets
      | Some sd \<Rightarrow> (net, sd) # net_checkpoints_found ep d fs nets)"
  by (simp add: net_checkpoints_found_def split: option.splits)

lemma load_networks_loop_ok:
  assumes "opt_resume_dir (opt s) = Some d" and "\<forall>(n, net)\<in>set xs. \<exists>k. n = PyStr k"
  shows "load_networks_loop ep xs s =
     (Inr (), s\<lparr>stdout := stdout s @ concat (map (\<lambda>(n, net). net_load_lines ep d (files s) n) xs),
               store := copy_all (net_checkpoints_found ep d (files s) xs) (store s)\<rparr>)"
  using assms
proof (induction xs arbitrary: s)
  case Nil
  then show ?case by (simp add: net_found_Nil copy_all_def)
next
  case (Cons x xs)
  obtain n net where x: "x = (n, net)" by (cases x)
  obtain k where k: "n = PyStr k" using Cons.prems(2) unfolding x by auto
  have rest: "\<forall>(n, net)\<in>set xs. \<exists>k. n = PyStr k" using Cons.prems(2) by simp
  show ?case
  proof (cases "files s (path_join d (net_filename ep n))")
    case None
    let ?s' = "print (PrintCannotLoad (path_join d (net_filename ep n))) (print (PrintLoading n) s)"
    have d': "opt_resume_dir (opt ?s') = Some d" using Cons.prems(1) by (simp add: print_def)
    show ?thesis
      using Cons.IH [OF d' rest] Cons.prems(1) None unfolding x k
      by (simp add: net_found_Cons net_load_lines_def os_path_join_def print_def Let_def)
  next
    case (Some sd)
    let ?s' = "(print (PrintLoading n) s)\<lparr>store := copy_params (unwrap net) sd (store s)\<rparr>"
    have d': "opt_resume_dir (opt ?s') = Some d" using Cons.prems(1) by (simp add: print_def)
    show ?thesis
      using Cons.IH [OF d' rest] Cons.prems(1) Some unfolding x k
      by (simp add: net_found_Cons net_load_lines_def os_path_join_def print_def Let_def
            load_state_dict_eq copy_all_def)
  qed
qed

lemma get_networks_names_str:
  "get_networks s = Inr nets \<Longrightarrow> \<forall>(n, net)\<in>set (zip (model_names s) nets). \<exists>k. n = PyStr k"
proof -
  assume "get_networks s = Inr nets"
  then have "\<exists>nets. get_networks_loop (attrs s) (model_names s) [] = Inr nets"
    by (auto simp: get_networks_def)
  then have "\<forall>n\<in>set (model_names s). \<exists>k m. n = PyStr k \<and> attrs s (''net_'' @ k) = Some (NetObj m)"
    by (simp only: get_networks_loop_ok)
  then show ?thesis by (auto dest!: set_zip_leftD)
qed

lemma found_set:
  "set (subnet_checkpoints_found ep names d fs networks) =
     {(net, sd). \<exists>n. (n, net) \<in> set networks \<and> n \<in> names \<and>
                      fs (path_join d (subnet_filename ep n)) = Some sd}"
  by (induction networks) (auto simp: found_Nil found_Cons split: option.splits if_splits)

lemma missing_set:
  "set (subnet_checkpoints_missing ep names d fs networks) =
     {path_join d (subnet_filename ep n) | n net. (n, net) \<in> set networks \<and> n \<in> names \<and>
                      fs (path_join d (subnet_filename ep n)) = None}"
  by (auto simp: subnet_checkpoints_missing_def)

lemma copy_params_apply:
  assumes "distinct (map snd ps)" and "(k, a) \<in> set ps"
  shows "fold (load_param sd) ps st a =
           (case map_of sd k of None \<Rightarrow> st a | Some t \<Rightarrow> (st a)\<lparr>data := t\<rparr>)"
  using assms
proof (induction ps arbitrary: st)
  case Nil
  then show ?case by simp
next
  case (Cons p ps)
  have other: "\<And>st'. a \<notin> snd ` set ps \<Longrightarrow> fold (load_param sd) ps st' a = st' a"
  proof -
    fix st' show "a \<notin> snd ` set ps \<Longrightarrow> fold (load_param sd) ps st' a = st' a"
      by (induction ps arbitrary: st') (auto simp: load_param_def split: option.splits)
  qed
  show ?case
  proof (cases "p = (k, a)")
    case True
    then have "a \<notin> snd ` set ps" using Cons.prems(1) by auto
    then have "fold (load_param sd) ps (load_param sd p st) a = load_param sd p st a"
      by (rule other)
    moreover have "load_param sd p st a =
        (case map_of sd k of None \<Rightarrow> st a | Some t \<Rightarrow> (st a)\<lparr>data := t\<rparr>)"
      using True by (simp add: load_param_def split: option.splits)
    ultimately show ?thesis by simp
  next
    case False
    then have in_ps: "(k, a) \<in> set ps" using Cons.prems(2) by simp
    then have "a \<in> snd ` set ps" by force
    then have "snd p \<noteq> a" using Cons.prems(1) by auto
    then have "load_param sd p st a = st a" by (simp add: load_param_def split: option.splits)
    moreover have "distinct (map snd ps)" using Cons.prems(1) by simp
    ultimately show ?thesis using Cons.IH [OF _ in_ps, of "load_param sd p st"]
      by (simp split: option.splits)
  qed
qed

lemma load_subnetworks_loop_drop_missing:
  assumes "load_dir rd s1 = Some d"
    and "opt s2 = opt s1" and "files s2 = files s1" and "store s2 = store s1"
    and "files s1 (path_join d (subnet_filename ep n)) = None"
  shows "fst (load_subnetworks_loop ep (insert n names) rd networks s1)
           = fst (load_subnetworks_loop ep (names - {n}) rd networks s2) \<and>
         store (snd (load_subnetworks_loop ep (insert n names) rd networks s1))
           = store (snd (load_subnetworks_loop ep (names - {n}) rd networks s2))"
  using assms
proof (induction networks arbitrary: s1 s2)
  case Nil
  then show ?case by simp
next
  case (Cons x networks)
  obtain m net where x: "x = (m, net)" by (cases x)
  have d2: "load_dir rd s2 = Some d"
    using Cons.prems(1,2) by (simp add: load_dir_def split: option.splits)
  show ?case
  proof (cases "m = n")
    case True
    let ?s1' = "print (PrintCannotLoad (path_join d (subnet_filename ep n))) s1"
    have "load_dir rd ?s1' = Some d" "opt s2 = opt ?s1'" "files s2 = files ?s1'" "store s2 = store ?s1'"
      "files ?s1' (path_join d (subnet_filename ep n)) = None"
      using Cons.prems by (simp_all add: load_dir_frame print_def)
    from Cons.IH [OF this] show ?thesis
      using Cons.prems(1,5) True unfolding x by (simp add: os_path_join_def)
  next
    case False
    show ?thesis
    proof (cases "m \<in> names")
      case notin: False
      from Cons.IH [OF Cons.prems] show ?thesis using False notin unfolding x by simp
    next
      case isin: True
      show ?thesis
      proof (cases "files s1 (path_join d (subnet_filename ep m))")
        case None
        let ?e = "PrintCannotLoad (path_join d (subnet_filename ep m))"
        have "load_dir rd (print ?e s1) = Some d" "opt (print ?e s2) = opt (print ?e s1)"
          "files (print ?e s2) = files (print ?e s1)" "store (print ?e s2) = store (print ?e s1)"
          "files (print ?e s1) (path_join d (subnet_filename ep n)) = None"
          using Cons.prems by (simp_all add: load_dir_frame print_def)
        from Cons.IH [OF this] show ?thesis
          using Cons.prems(1,3) d2 False isin None unfolding x by (simp add: os_path_join_def)
      next
        case (Some sd)
        let ?t1 = "s1\<lparr>store := copy_params (unwrap net) sd (store s1)\<rparr>"
        let ?t2 = "s2\<lparr>store := copy_params (unwrap net) sd (store s2)\<rparr>"
        have p: "load_dir rd ?t1 = Some d" "opt ?t2 = opt ?t1" "files ?t2 = files ?t1"
          "store ?t2 = store ?t1" "files ?t1 (path_join d (subnet_filename ep n)) = None"
          using Cons.prems by (simp_all add: load_dir_frame)
        show ?thesis
        proof (cases "keys_match (unwrap net) sd")
          case True
          from Cons.IH [OF p] show ?thesis
            using Cons.prems(1,3) d2 False isin Some True unfolding x
            by (simp add: os_path_join_def load_state_dict_eq)
        next
          case nomatch: False
          show ?thesis
            using Cons.prems(1,3,4) d2 False isin Some nomatch unfolding x
            by (simp add: os_path_join_def load_state_dict_eq)
        qed
      qed
    qed
  qed
qed

lemma load_subnetworks_loop_Cons:
  "load_subnetworks_loop ep names rd ((n, net) # networks) s =
     (if n \<notin> names then load_subnetworks_loop ep names rd networks s
      else case load_dir rd s of
             None \<Rightarrow> (Inl TypeError, s)
           | Some d \<Rightarrow>
               (case files s (path_join d (subnet_filename ep n)) of
                  None \<Rightarrow> load_subnetworks_loop ep names rd networks
                            (print (PrintCannotLoad (path_join d (subnet_filename ep n))) s)
                | Some sd \<Rightarrow>
                    if keys_match (unwrap net) sd
                    then load_subnetworks_loop ep names rd networks
                           (s\<lparr>store := copy_params (unwrap net) sd (store s)\<rparr>)
                    else (Inl RuntimeError, s\<lparr>store := copy_params (unwrap net) sd (store s)\<rparr>)))"
  by (simp add: os_path_join_def load_state_dict_eq Let_def split: option.splits)

lemma load_subnetworks_loop_dir:
  "load_dir rd1 s = load_dir rd2 s \<Longrightarrow>
   load_subnetworks_loop ep names rd1 networks s = load_subnetworks_loop ep names rd2 networks s"
proof (induction networks arbitrary: s)
  case Nil
  then show ?case by simp
next
  case (Cons x networks)
  obtain n net where x: "x = (n, net)" by (cases x)
  have p: "\<And>e. load_subnetworks_loop ep names rd1 networks (print e s)
              = load_subnetworks_loop ep names rd2 networks (print e s)"
    using Cons.prems by (intro Cons.IH) (simp add: load_dir_frame)
  have q: "\<And>st. load_subnetworks_loop ep names rd1 networks (s\<lparr>store := st\<rparr>)
              = load_subnetworks_loop ep names rd2 networks (s\<lparr>store := st\<rparr>)"
    using Cons.prems by (intro Cons.IH) (simp add: load_dir_frame)
  have r: "load_subnetworks_loop ep names rd1 networks s
              = load_subnetworks_loop ep names rd2 networks s"
    using Cons.prems by (intro Cons.IH)
  show ?case
    unfolding x load_subnetworks_loop_Cons Cons.prems p q r ..
qed


lemma load_subnetworks_loop_opt:
  "load_subnetworks_loop ep names (Some d) networks (s\<lparr>opt := o'\<rparr>) =
     apsnd (\<lambda>s'. s'\<lparr>opt := o'\<rparr>) (load_subnetworks_loop ep names (Some d) networks s)"
proof (induction networks arbitrary: s)
  case Nil
  then show ?case by simp
next
  case (Cons x networks)
  obtain n net where x: "x = (n, net)" by (cases x)
  have d: "\<And>t. load_dir (Some d) t = Some d" by (simp add: load_dir_def)
  have p: "\<And>e. print e (s\<lparr>opt := o'\<rparr>) = (print e s)\<lparr>opt := o'\<rparr>" by (simp add: print_def)
  have q: "\<And>st. s\<lparr>opt := o', store := st\<rparr> = s\<lparr>store := st\<rparr>\<lparr>opt := o'\<rparr>" by simp
  show ?case
  proof (cases "n \<in> names")
    case False
    then show ?thesis unfolding x load_subnetworks_loop_Cons by (simp add: Cons.IH)
  next
    case True
    show ?thesis
    proof (cases "files s (path_join d (subnet_filename ep n))")
      case None
      then show ?thesis
        unfolding x load_subnetworks_loop_Cons d p using True by (simp add: Cons.IH)
    next
      case (Some sd)
      have st: "store (s\<lparr>opt := o'\<rparr>) = store s" by simp
      show ?thesis
        unfolding x load_subnetworks_loop_Cons d st using True Some
        by (simp add: q Cons.IH)
    qed
  qed
qed

lemmas eval_load =
  subnet_checkpoints_found_def subnet_checkpoints_missing_def net_checkpoints_found_def
  net_load_lines_def copy_all_def copy_params_def load_param_def keys_match_def
  missing_keys_def unexpected_keys_def unwrap_def load_dir_def

text \<open>
  Claim C4: in a call of \<open>load_subnetworks\<close> whose directory is known, a requested name
  whose checkpoint file does not exist is skipped without an exception and without any
  effect on the other names: the outcome and the parameters after the call are those of
  the call without that name. When every requested file that exists passes the strict
  check, the call returns normally, prints \<open>cannot load\<close> with the path for exactly the
  requested subnetworks whose file is missing, and has copied exactly the files that
  exist into their subnetworks, in the order of the dictionary.
\<close>

theorem load_subnetworks_skips_missing_files:
  assumes "subnetworks s = Some networks" and "load_dir resume_dir s = Some d"
  shows "(files s (path_join d (subnet_filename ep n)) = None \<longrightarrow>
           fst (load_subnetworks ep (Some ns) resume_dir s)
             = fst (load_subnetworks ep (Some (removeAll n ns)) resume_dir s) \<and>
           store (snd (load_subnetworks ep (Some ns) resume_dir s))
             = store (snd (load_subnetworks ep (Some (removeAll n ns)) resume_dir s))) \<and>
         ((\<forall>(net, sd)\<in>set (subnet_checkpoints_found ep (set ns) d (files s) networks).
              keys_match (unwrap net) sd) \<longrightarrow>
           load_subnetworks ep (Some ns) resume_dir s =
             (Inr (), s\<lparr>stdout := stdout s @ Call_load_subnetworks ep #
                          map PrintCannotLoad (subnet_checkpoints_missing ep (set ns) d (files s) networks),
                        store := copy_all (subnet_checkpoints_found ep (set ns) d (files s) networks)
                                   (store s)\<rparr>)) \<and>
         set (subnet_checkpoints_found ep (set ns) d (files s) networks) =
           {(net, sd). \<exists>m. (m, net) \<in> set networks \<and> m \<in> set ns \<and>
                            files s (path_join d (subnet_filename ep m)) = Some sd} \<and>
         set (subnet_checkpoints_missing ep (set ns) d (files s) networks) =
           {path_join d (subnet_filename ep m) | m net. (m, net) \<in> set networks \<and> m \<in> set ns \<and>
                            files s (path_join d (subnet_filename ep m)) = None}"
proof (intro conjI impI)
  let ?s = "print (Call_load_subnetworks ep) s"
  have fr: "load_dir resume_dir ?s = Some d" "opt ?s = opt ?s" "files ?s = files ?s" "store ?s = store ?s"
    using assms(2) by (simp_all add: load_dir_frame)
  {
    assume m: "files s (path_join d (subnet_filename ep n)) = None"
    then have m': "files ?s (path_join d (subnet_filename ep n)) = None" by (simp add: print_def)
    have both: "fst (load_subnetworks ep (Some ns) resume_dir s)
             = fst (load_subnetworks ep (Some (removeAll n ns)) resume_dir s) \<and>
            store (snd (load_subnetworks ep (Some ns) resume_dir s))
             = store (snd (load_subnetworks ep (Some (removeAll n ns)) resume_dir s))"
    proof (cases "n \<in> set ns")
      case False
      then show ?thesis by simp
    next
      case True
      then have sets: "set ns = insert n (set ns)" by auto
      have l: "load_subnetworks ep (Some ns) resume_dir s
                = load_subnetworks_loop ep (insert n (set ns)) resume_dir networks ?s"
        using assms(1) sets by (simp add: load_subnetworks_def get_subnetworks_def print_def Let_def)
      have l': "load_subnetworks ep (Some (removeAll n ns)) resume_dir s
                = load_subnetworks_loop ep (set ns - {n}) resume_dir networks ?s"
        using assms(1) by (simp add: load_subnetworks_def get_subnetworks_def print_def Let_def)
      show ?thesis
        unfolding l l' by (rule load_subnetworks_loop_drop_missing [OF fr m'])
    qed
    show "fst (load_subnetworks ep (Some ns) resume_dir s)
             = fst (load_subnetworks ep (Some (removeAll n ns)) resume_dir s)"
      and "store (snd (load_subnetworks ep (Some ns) resume_dir s))
             = store (snd (load_subnetworks ep (Some (removeAll n ns)) resume_dir s))"
      using both by simp_all
  }
  {
    assume k: "\<forall>(net, sd)\<in>set (subnet_checkpoints_found ep (set ns) d (files s) networks).
              keys_match (unwrap net) sd"
    then have k': "\<forall>(net, sd)\<in>set (subnet_checkpoints_found ep (set ns) d (files ?s) networks).
              keys_match (unwrap net) sd" by (simp add: print_def)
    from load_subnetworks_loop_ok [OF fr(1) k']
    show "load_subnetworks ep (Some ns) resume_dir s =
             (Inr (), s\<lparr>stdout := stdout s @ Call_load_subnetworks ep #
                          map PrintCannotLoad (subnet_checkpoints_missing ep (set ns) d (files s) networks),
                        store := copy_all (subnet_checkpoints_found ep (set ns) d (files s) networks)
                                   (store s)\<rparr>)"
      using assms(1) by (simp add: load_subnetworks_def get_subnetworks_def print_def Let_def)
  }
  show "set (subnet_checkpoints_found ep (set ns) d (files s) networks) =
           {(net, sd). \<exists>m. (m, net) \<in> set networks \<and> m \<in> set ns \<and>
                            files s (path_join d (subnet_filename ep m)) = Some sd}"
    by (rule found_set)
  show "set (subnet_checkpoints_missing ep (set ns) d (files s) networks) =
           {path_join d (subnet_filename ep m) | m net. (m, net) \<in> set networks \<and> m \<in> set ns \<and>
                            files s (path_join d (subnet_filename ep m)) = None}"
    by (rule missing_set)
qed

text \<open>
  Claim C4 on the example object: \<open>enc\<close> has no file and is reported, \<open>dec\<close> is
  loaded from its file, and the parameters are those of the call for \<open>dec\<close> alone.
\<close>

theorem load_subnetworks_skips_missing_files_witness:
  "fst (load_subnetworks (EpochStr ''latest'') (Some [''enc'', ''dec'']) (Some ''pre'')
          (example_state\<lparr>files := [''pre/latest_subnet_dec.pth'' \<mapsto> [(''b'', [42])]]\<rparr>)) = Inr () \<and>
   stdout (snd (load_subnetworks (EpochStr ''latest'') (Some [''enc'', ''dec'']) (Some ''pre'')
          (example_state\<lparr>files := [''pre/latest_subnet_dec.pth'' \<mapsto> [(''b'', [42])]]\<rparr>)))
     = [Call_load_subnetworks (EpochStr ''latest''), PrintCannotLoad ''pre/latest_subnet_enc.pth''] \<and>
   data (store (snd (load_subnetworks (EpochStr ''latest'') (Some [''enc'', ''dec'']) (Some ''pre'')
          (example_state\<lparr>files := [''pre/latest_subnet_dec.pth'' \<mapsto> [(''b'', [42])]]\<rparr>))) 1) = [42] \<and>
   data (store (snd (load_subnetworks (EpochStr ''latest'') (Some [''enc'', ''dec'']) (Some ''pre'')
          (example_state\<lparr>files := [''pre/latest_subnet_dec.pth'' \<mapsto> [(''b'', [42])]]\<rparr>))) 0) = [0] \<and>
   store (snd (load_subnetworks (EpochStr ''latest'') (Some [''enc'', ''dec'']) (Some ''pre'')
          (example_state\<lparr>files := [''pre/latest_subnet_dec.pth'' \<mapsto> [(''b'', [42])]]\<rparr>)))
     = store (snd (load_subnetworks (EpochStr ''latest'') (Some [''dec'']) (Some ''pre'')
          (example_state\<lparr>files := [''pre/latest_subnet_dec.pth'' \<mapsto> [(''b'', [42])]]\<rparr>)))"
proof -
  let ?s = "example_state\<lparr>files := [''pre/latest_subnet_dec.pth'' \<mapsto> [(''b'', [42])]]\<rparr>"
  let ?nets = "[(''enc'', Module [(''w'', 0)]), (''dec'', Module [(''b'', 1)])]"
  have a: "subnetworks ?s = Some ?nets" by (simp add: example_state_def)
  have b: "load_dir (Some ''pre'') ?s = Some ''pre''" by (simp add: load_dir_def)
  have m: "files ?s (path_join ''pre'' (subnet_filename (EpochStr ''latest'') ''enc'')) = None"
    by (simp add: eval_strings)
  have k: "\<forall>(net, sd)\<in>set (subnet_checkpoints_found (EpochStr ''latest'') (set [''enc'', ''dec''])
              ''pre'' (files ?s) ?nets). keys_match (unwrap net) sd"
    by (simp add: eval_strings eval_load)
  note t = load_subnetworks_skips_missing_files
             [OF a b, of "EpochStr ''latest''" "''enc''" "[''enc'', ''dec'']"]
  have r: "load_subnetworks (EpochStr ''latest'') (Some [''enc'', ''dec'']) (Some ''pre'') ?s =
             (Inr (), ?s\<lparr>stdout := [Call_load_subnetworks (EpochStr ''latest''),
                                     PrintCannotLoad ''pre/latest_subnet_enc.pth''],
                        store := example_store(1 := (example_store 1)\<lparr>data := [42]\<rparr>)\<rparr>)"
    using t k by (simp add: eval_strings eval_load example_state_def)
  have e: "store (snd (load_subnetworks (EpochStr ''latest'') (Some [''enc'', ''dec'']) (Some ''pre'') ?s))
     = store (snd (load_subnetworks (EpochStr ''latest'') (Some [''dec'']) (Some ''pre'') ?s))"
    using t m by simp
  show ?thesis
    unfolding e [symmetric] unfolding r by (simp add: example_store_def)
qed

text \<open>
  Claim C5: \<open>load_subnetworks\<close> loads strictly: it returns normally exactly when the
  keys of every file it reads are the parameter names of the subnetwork, and raises
  \<open>RuntimeError\<close> otherwise. \<open>load_networks\<close> loads non-strictly: whatever the keys
  of the files, it returns normally once the registered names resolve and the directory
  is set, having copied each file that exists; and such a copy replaces the parameters
  whose names are in the file and leaves the others as they were.
\<close>

theorem strict_and_non_strict_load:
  "(subnetworks s = Some networks \<and> load_dir resume_dir s = Some d \<longrightarrow>
      (fst (load_subnetworks ep (Some ns) resume_dir s) = Inr () \<longleftrightarrow>
         (\<forall>(net, sd)\<in>set (subnet_checkpoints_found ep (set ns) d (files s) networks).
            set (map fst sd) = set (map fst (named_parameters (unwrap net))))) \<and>
      (fst (load_subnetworks ep (Some ns) resume_dir s) \<noteq> Inr () \<longrightarrow>
         fst (load_subnetworks ep (Some ns) resume_dir s) = Inl RuntimeError)) \<and>
   (get_networks s = Inr nets \<and> opt_resume_dir (opt s) = Some d \<longrightarrow>
      load_networks ep s =
        (Inr (), s\<lparr>stdout := stdout s @ Call_load_networks ep #
                     concat (map (net_load_lines ep d (files s)) (model_names s)),
                   store := copy_all (net_checkpoints_found ep d (files s) (zip (model_names s) nets))
                              (store s)\<rparr>)) \<and>
   (distinct (map snd (named_parameters net)) \<and> (k, a) \<in> set (named_parameters net) \<longrightarrow>
      copy_params net sd st a = (case map_of sd k of None \<Rightarrow> st a | Some t \<Rightarrow> (st a)\<lparr>data := t\<rparr>))"
proof (intro conjI impI)
  assume h: "subnetworks s = Some networks \<and> load_dir resume_dir s = Some d"
  let ?s = "print (Call_load_subnetworks ep) s"
  let ?ok = "\<forall>(net, sd)\<in>set (subnet_checkpoints_found ep (set ns) d (files s) networks).
               keys_match (unwrap net) sd"
  have d: "load_dir resume_dir ?s = Some d" using h by (simp add: load_dir_frame)
  have l: "load_subnetworks ep (Some ns) resume_dir s
             = load_subnetworks_loop ep (set ns) resume_dir networks ?s"
    using h by (simp add: load_subnetworks_def get_subnetworks_def Let_def print_frame)
  have f: "files ?s = files s" by (simp add: print_def)
  have yes: "?ok \<Longrightarrow> fst (load_subnetworks ep (Some ns) resume_dir s) = Inr ()"
    unfolding l using load_subnetworks_loop_ok [OF d, of ep "set ns" networks] by (simp add: f)
  have no: "\<not> ?ok \<Longrightarrow> fst (load_subnetworks ep (Some ns) resume_dir s) = Inl RuntimeError"
    unfolding l using load_subnetworks_loop_strict [OF d, of ep "set ns" networks] by (simp add: f)
  have iff: "fst (load_subnetworks ep (Some ns) resume_dir s) = Inr () \<longleftrightarrow> ?ok"
    using yes no by (cases ?ok) simp_all
  show "fst (load_subnetworks ep (Some ns) resume_dir s) = Inr () \<longleftrightarrow>
         (\<forall>(net, sd)\<in>set (subnet_checkpoints_found ep (set ns) d (files s) networks).
            set (map fst sd) = set (map fst (named_parameters (unwrap net))))"
    unfolding iff by (intro ball_cong refl) (simp add: keys_match_iff split: prod.splits)
  assume "fst (load_subnetworks ep (Some ns) resume_dir s) \<noteq> Inr ()"
  then show "fst (load_subnetworks ep (Some ns) resume_dir s) = Inl RuntimeError"
    using yes no by blast
next
  assume h: "get_networks s = Inr nets \<and> opt_resume_dir (opt s) = Some d"
  let ?s = "print (Call_load_networks ep) s"
  have g: "get_networks ?s = Inr nets" using h by (simp add: get_networks_def print_def)
  have len: "length nets = length (model_names s)" using h by (simp add: get_networks_length)
  have str: "\<forall>(n, net)\<in>set (zip (model_names ?s) nets). \<exists>k. n = PyStr k"
    using get_networks_names_str [OF g] .
  have d: "opt_resume_dir (opt ?s) = Some d" using h by (simp add: print_def)
  have lines: "map (\<lambda>(n, net). net_load_lines ep d (files s) n) (zip (model_names s) nets)
                 = map (net_load_lines ep d (files s)) (model_names s)"
    by (rule map_fst_zip_names [OF len])
  show "load_networks ep s =
        (Inr (), s\<lparr>stdout := stdout s @ Call_load_networks ep #
                     concat (map (net_load_lines ep d (files s)) (model_names s)),
                   store := copy_all (net_checkpoints_found ep d (files s) (zip (model_names s) nets))
                              (store s)\<rparr>)"
    using load_networks_loop_ok [OF d str, of ep] g lines
    by (simp add: load_networks_def Let_def print_def)
next
  assume "distinct (map snd (named_parameters net)) \<and> (k, a) \<in> set (named_parameters net)"
  then show "copy_params net sd st a =
      (case map_of sd k of None \<Rightarrow> st a | Some t \<Rightarrow> (st a)\<lparr>data := t\<rparr>)"
    unfolding copy_params_def by (simp add: copy_params_apply)
qed

text \<open>
  Claim C5 on the example object, with files that lack the key \<open>b\<close> and carry an
  unexpected key \<open>extra\<close>: the strict load of \<open>enc\<close> raises, the non-strict load of
  \<open>net_G\<close> returns normally, sets \<open>w\<close> and leaves \<open>b\<close>.
\<close>

theorem strict_and_non_strict_load_witness:
  "fst (load_subnetworks (EpochStr ''latest'') (Some [''enc'']) (Some ''pre'')
          (example_state\<lparr>files := [''pre/latest_subnet_enc.pth'' \<mapsto> [(''w'', [5]), (''extra'', [6])],
                                     ''run/7_net_G.pth'' \<mapsto> [(''w'', [5]), (''extra'', [6])]]\<rparr>))
     = Inl RuntimeError \<and>
   fst (load_networks (EpochInt 7)
          (example_state\<lparr>files := [''pre/latest_subnet_enc.pth'' \<mapsto> [(''w'', [5]), (''extra'', [6])],
                                     ''run/7_net_G.pth'' \<mapsto> [(''w'', [5]), (''extra'', [6])]]\<rparr>))
     = Inr () \<and>
   stdout (snd (load_networks (EpochInt 7)
          (example_state\<lparr>files := [''pre/latest_subnet_enc.pth'' \<mapsto> [(''w'', [5]), (''extra'', [6])],
                                     ''run/7_net_G.pth'' \<mapsto> [(''w'', [5]), (''extra'', [6])]]\<rparr>)))
     = [Call_load_networks (EpochInt 7), PrintLoading (PyStr ''G''), PrintLoading (PyStr ''D''),
        PrintCannotLoad ''run/7_net_D.pth''] \<and>
   data (store (snd (load_networks (EpochInt 7)
          (example_state\<lparr>files := [''pre/latest_subnet_enc.pth'' \<mapsto> [(''w'', [5]), (''extra'', [6])],
                                     ''run/7_net_G.pth'' \<mapsto> [(''w'', [5]), (''extra'', [6])]]\<rparr>))) 0) = [5] \<and>
   data (store (snd (load_networks (EpochInt 7)
          (example_state\<lparr>files := [''pre/latest_subnet_enc.pth'' \<mapsto> [(''w'', [5]), (''extra'', [6])],
                                     ''run/7_net_G.pth'' \<mapsto> [(''w'', [5]), (''extra'', [6])]]\<rparr>))) 1) = [1]"
proof -
  let ?s = "example_state\<lparr>files := [''pre/latest_subnet_enc.pth'' \<mapsto> [(''w'', [5]), (''extra'', [6])],
                                     ''run/7_net_G.pth'' \<mapsto> [(''w'', [5]), (''extra'', [6])]]\<rparr>"
  let ?subs = "[(''enc'', Module [(''w'', 0)]), (''dec'', Module [(''b'', 1)])]"
  let ?nets = "[Module [(''w'', 0), (''b'', 1)], DataParallel (Module [(''w'', 2)])]"
  have a: "subnetworks ?s = Some ?subs \<and> load_dir (Some ''pre'') ?s = Some ''pre''"
    by (simp add: example_state_def load_dir_def)
  have b: "get_networks ?s = Inr ?nets \<and> opt_resume_dir (opt ?s) = Some ''run''"
    by (simp add: get_networks_def example_state_def example_options_def)
  have bad: "\<not> (\<forall>(net, sd)\<in>set (subnet_checkpoints_found (EpochStr ''latest'') (set [''enc''])
                 ''pre'' (files ?s) ?subs).
               set (map fst sd) = set (map fst (named_parameters (unwrap net))))"
    by (simp add: eval_strings eval_load)
  note t1 = strict_and_non_strict_load
             [where s = ?s and networks = ?subs and resume_dir = "Some ''pre''" and d = "''pre''"
                and ep = "EpochStr ''latest''" and ns = "[''enc'']"]
  note t2 = strict_and_non_strict_load
             [where s = ?s and nets = ?nets and d = "''run''" and ep = "EpochInt 7"]
  have 1: "fst (load_subnetworks (EpochStr ''latest'') (Some [''enc'']) (Some ''pre'') ?s)
             = Inl RuntimeError"
    using t1 a bad by blast
  have 2: "load_networks (EpochInt 7) ?s =
        (Inr (), ?s\<lparr>stdout := stdout ?s @ Call_load_networks (EpochInt 7) #
                     concat (map (net_load_lines (EpochInt 7) ''run'' (files ?s)) (model_names ?s)),
                   store := copy_all (net_checkpoints_found (EpochInt 7) ''run'' (files ?s)
                                        (zip (model_names ?s) ?nets))
                              (store ?s)\<rparr>)"
    using t2 b by blast
  show ?thesis
    unfolding 1 2
    by (simp add: example_state_def example_store_def eval_strings eval_load)
qed

text \<open>
  The default arguments of \<open>load_subnetworks\<close>, as equations between calls.
\<close>

lemma load_subnetworks_default_arguments:
  "load_subnetworks ep None resume_dir s =
     load_subnetworks ep (Some (case subnetworks s of None \<Rightarrow> [] | Some networks \<Rightarrow> map fst networks))
       resume_dir s \<and>
   load_subnetworks ep names None s = load_subnetworks ep names (opt_resume_dir (opt s)) s \<and>
   load_subnetworks ep names (Some d) (s\<lparr>opt := o'\<rparr>) =
     apsnd (\<lambda>s'. s'\<lparr>opt := o'\<rparr>) (load_subnetworks ep names (Some d) s)"
proof (intro conjI)
  let ?s = "print (Call_load_subnetworks ep) s"
  show "load_subnetworks ep None resume_dir s =
     load_subnetworks ep (Some (case subnetworks s of None \<Rightarrow> [] | Some networks \<Rightarrow> map fst networks))
       resume_dir s"
    by (cases "subnetworks s")
       (simp_all add: load_subnetworks_def get_subnetworks_def print_frame Let_def)
  have "load_dir None ?s = load_dir (opt_resume_dir (opt s)) ?s"
    by (simp add: load_dir_def print_frame split: option.splits)
  then have "\<And>ns networks. load_subnetworks_loop ep ns None networks ?s
               = load_subnetworks_loop ep ns (opt_resume_dir (opt s)) networks ?s"
    by (rule load_subnetworks_loop_dir)
  then show "load_subnetworks ep names None s = load_subnetworks ep names (opt_resume_dir (opt s)) s"
    unfolding load_subnetworks_def Let_def
    by (cases "get_subnetworks ?s") simp_all
  have p: "print (Call_load_subnetworks ep) (s\<lparr>opt := o'\<rparr>) = ?s\<lparr>opt := o'\<rparr>"
    by (simp add: print_def)
  have g: "get_subnetworks (?s\<lparr>opt := o'\<rparr>) = get_subnetworks ?s"
    by (simp add: get_subnetworks_def)
  show "load_subnetworks ep names (Some d) (s\<lparr>opt := o'\<rparr>) =
     apsnd (\<lambda>s'. s'\<lparr>opt := o'\<rparr>) (load_subnetworks ep names (Some d) s)"
    unfolding load_subnetworks_def Let_def p g
    by (cases "get_subnetworks ?s") (simp_all add: load_subnetworks_loop_opt)
qed

lemma unwrap_addresses:
  "map snd (named_parameters (unwrap net)) = map snd (named_parameters net)"
proof (cases net)
  case (Module ps)
  then show ?thesis by (simp add: unwrap_def)
next
  case (DataParallel m)
  have "map snd (map (\<lambda>(k, a). (''module.'' @ k, a)) (named_parameters m))
          = map snd (named_parameters m)"
    by (induction "named_parameters m") auto
  then show ?thesis using DataParallel by (simp add: unwrap_def)
qed

lemma fold_load_param_other:
  "a \<notin> snd ` set ps \<Longrightarrow> fold (load_param sd) ps st a = st a"
  by (induction ps arbitrary: st) (auto simp: load_param_def split: option.splits)

lemma copy_params_other:
  "a \<notin> snd ` set (named_parameters net) \<Longrightarrow> copy_params net sd st a = st a"
  unfolding copy_params_def by (rule fold_load_param_other)

lemma copy_all_Cons:
  "copy_all ((net, sd) # cs) st = copy_all cs (copy_params (unwrap net) sd st)"
  by (simp add: copy_all_def)

lemma copy_all_other:
  "a \<notin> set (concat (map (\<lambda>c. map snd (named_parameters (unwrap (fst c)))) cs)) \<Longrightarrow>
   copy_all cs st a = st a"
proof (induction cs arbitrary: st)
  case Nil
  then show ?case by (simp add: copy_all_def)
next
  case (Cons c cs)
  obtain net sd where c: "c = (net, sd)" by (cases c)
  have h: "a \<notin> snd ` set (named_parameters (unwrap net))"
    and t: "a \<notin> set (concat (map (\<lambda>c. map snd (named_parameters (unwrap (fst c)))) cs))"
    using Cons.prems unfolding c by auto
  show ?case
    unfolding c copy_all_Cons by (simp add: Cons.IH [OF t] copy_params_other [OF h])
qed

lemma copy_all_apply:
  assumes "distinct (concat (map (\<lambda>c. map snd (named_parameters (unwrap (fst c)))) cs))"
    and "(net, sd) \<in> set cs" and "(k, a) \<in> set (named_parameters (unwrap net))"
  shows "copy_all cs st a = (case map_of sd k of None \<Rightarrow> st a | Some t \<Rightarrow> (st a)\<lparr>data := t\<rparr>)"
  using assms
proof (induction cs arbitrary: st)
  case Nil
  then show ?case by simp
next
  case (Cons c cs)
  obtain net0 sd0 where c: "c = (net0, sd0)" by (cases c)
  let ?addrs = "\<lambda>cs. set (concat (map (\<lambda>c. map snd (named_parameters (unwrap (fst c)))) cs))"
  have dh: "distinct (map snd (named_parameters (unwrap net0)))"
    and dt: "distinct (concat (map (\<lambda>c. map snd (named_parameters (unwrap (fst c)))) cs))"
    and disj: "snd ` set (named_parameters (unwrap net0)) \<inter> ?addrs cs = {}"
    using Cons.prems(1) unfolding c by auto
  have a_in: "a \<in> snd ` set (named_parameters (unwrap net))" using Cons.prems(3) by force
  show ?case
  proof (cases "(net, sd) \<in> set cs")
    case True
    then have "a \<in> ?addrs cs" using a_in by (auto intro!: bexI [of _ "(net, sd)"])
    then have "a \<notin> snd ` set (named_parameters (unwrap net0))" using disj by auto
    then have "copy_params (unwrap net0) sd0 st a = st a" by (rule copy_params_other)
    then show ?thesis
      unfolding c copy_all_Cons using Cons.IH [OF dt True Cons.prems(3)]
      by (simp split: option.splits)
  next
    case False
    then have eq: "net0 = net" "sd0 = sd" using Cons.prems(2) unfolding c by auto
    have "a \<notin> ?addrs cs" using disj a_in unfolding eq by auto
    then have "copy_all cs (copy_params (unwrap net) sd st) a = copy_params (unwrap net) sd st a"
      by (rule copy_all_other)
    moreover have "copy_params (unwrap net) sd st a
        = (case map_of sd k of None \<Rightarrow> st a | Some t \<Rightarrow> (st a)\<lparr>data := t\<rparr>)"
      unfolding copy_params_def using dh Cons.prems(3) unfolding eq by (rule copy_params_apply)
    ultimately show ?thesis unfolding c eq copy_all_Cons by simp
  qed
qed

lemma found_addresses_subset:
  "set (concat (map (\<lambda>c. map snd (named_parameters (unwrap (fst c))))
                  (subnet_checkpoints_found ep names d fs networks)))
     \<subseteq> set (concat (map (\<lambda>x. map snd (named_parameters (snd x))) networks))"
proof (induction networks)
  case Nil
  then show ?case by (simp add: found_Nil)
next
  case (Cons x networks)
  obtain n net where x: "x = (n, net)" by (cases x)
  show ?case
    unfolding x found_Cons using Cons.IH
    by (auto simp: unwrap_addresses split: option.splits)
qed

lemma found_addresses_distinct:
  "distinct (concat (map (\<lambda>x. map snd (named_parameters (snd x))) networks)) \<Longrightarrow>
   distinct (concat (map (\<lambda>c. map snd (named_parameters (unwrap (fst c))))
                       (subnet_checkpoints_found ep names d fs networks)))"
proof (induction networks)
  case Nil
  then show ?case by (simp add: found_Nil)
next
  case (Cons x networks)
  obtain n net where x: "x = (n, net)" by (cases x)
  have dt: "distinct (concat (map (\<lambda>x. map snd (named_parameters (snd x))) networks))"
    and dh: "distinct (map snd (named_parameters net))"
    and disj: "set (map snd (named_parameters net)) \<inter>
               set (concat (map (\<lambda>x. map snd (named_parameters (snd x))) networks)) = {}"
    using Cons.prems unfolding x by auto
  have sub: "set (concat (map (\<lambda>c. map snd (named_parameters (unwrap (fst c))))
                  (subnet_checkpoints_found ep names d fs networks)))
     \<subseteq> set (concat (map (\<lambda>x. map snd (named_parameters (snd x))) networks))"
    by (rule found_addresses_subset)
  have disj': "set (map snd (named_parameters net)) \<inter>
               set (concat (map (\<lambda>c. map snd (named_parameters (unwrap (fst c))))
                  (subnet_checkpoints_found ep names d fs networks))) = {}"
    using disj sub by blast
  show ?case
    unfolding x found_Cons using Cons.IH [OF dt] dh disj'
    by (simp add: unwrap_addresses split: option.splits)
qed

lemma load_subnetworks_all_loaded:
  assumes sub: "subnetworks s = Some networks"
    and dir: "resume_dir = Some dir \<or> resume_dir = None \<and> opt_resume_dir (opt s) = Some dir"
    and strict: "\<forall>x\<in>set networks. \<forall>sd. files s (path_join dir (subnet_filename ep (fst x))) = Some sd
                   \<longrightarrow> keys_match (unwrap (snd x)) sd"
    and dist: "distinct (concat (map (\<lambda>x. map snd (named_parameters (snd x))) networks))"
  shows "\<exists>s'. load_subnetworks ep None resume_dir s = (Inr (), s') \<and>
           stdout s' = stdout s @ Call_load_subnetworks ep #
             map PrintCannotLoad
               (subnet_checkpoints_missing ep (set (map fst networks)) dir (files s) networks) \<and>
           (\<forall>x\<in>set networks. \<forall>sd. files s (path_join dir (subnet_filename ep (fst x))) = Some sd \<longrightarrow>
              (\<forall>p\<in>set (named_parameters (unwrap (snd x))).
                 \<exists>t. map_of sd (fst p) = Some t \<and> store s' (snd p) = (store s (snd p))\<lparr>data := t\<rparr>))"
proof -
  let ?s = "print (Call_load_subnetworks ep) s"
  let ?names = "set (map fst networks)"
  let ?found = "subnet_checkpoints_found ep ?names dir (files s) networks"
  let ?missing = "subnet_checkpoints_missing ep ?names dir (files s) networks"
  let ?s' = "?s\<lparr>stdout := stdout ?s @ map PrintCannotLoad ?missing,
                  store := copy_all ?found (store ?s)\<rparr>"
  have d: "load_dir resume_dir ?s = Some dir"
    using dir by (auto simp: load_dir_def print_frame)
  have f: "files ?s = files s" by (simp add: print_frame)
  have k: "\<forall>(net, sd)\<in>set (subnet_checkpoints_found ep ?names dir (files ?s) networks).
             keys_match (unwrap net) sd"
    unfolding f found_set using strict by fastforce
  have r: "load_subnetworks ep None resume_dir s = (Inr (), ?s')"
    using load_subnetworks_loop_ok [OF d k] sub
    by (simp add: load_subnetworks_def get_subnetworks_def Let_def print_frame)
  have out: "stdout ?s' = stdout s @ Call_load_subnetworks ep # map PrintCannotLoad ?missing"
    by (simp add: print_frame)
  have st: "store ?s' = copy_all ?found (store s)" by (simp add: print_frame)
  have dd: "distinct (concat (map (\<lambda>c. map snd (named_parameters (unwrap (fst c)))) ?found))"
    using dist by (rule found_addresses_distinct)
  have loaded: "\<exists>t. map_of sd (fst p) = Some t \<and> store ?s' (snd p) = (store s (snd p))\<lparr>data := t\<rparr>"
    if x: "x \<in> set networks" and sd: "files s (path_join dir (subnet_filename ep (fst x))) = Some sd"
      and p: "p \<in> set (named_parameters (unwrap (snd x)))" for x sd p
  proof -
    obtain n net where xe: "x = (n, net)" by (cases x)
    obtain key a where pe: "p = (key, a)" by (cases p)
    have in_found: "(net, sd) \<in> set ?found"
      unfolding found_set using x sd xe by force
    have km: "keys_match (unwrap net) sd" using strict x sd xe by fastforce
    have "key \<in> set (map fst (named_parameters (unwrap net)))" using p xe pe by force
    then have "key \<in> set (map fst sd)" using km by (simp add: keys_match_iff)
    then obtain t where t: "map_of sd key = Some t"
      by (metis image_set map_of_eq_None_iff not_Some_eq)
    have "copy_all ?found (store s) a
            = (case map_of sd key of None \<Rightarrow> store s a | Some t \<Rightarrow> (store s a)\<lparr>data := t\<rparr>)"
      using dd in_found p unfolding xe pe by (intro copy_all_apply) simp_all
    then show ?thesis unfolding st pe using t by simp
  qed
  show ?thesis
    using r out loaded by (intro exI [of _ ?s']) blast
qed

text \<open>
  Claim C9: \<open>load_subnetworks\<close> with \<open>names=None\<close> is the call with all the keys of
  the subnetwork map; with \<open>resume_dir=None\<close> it is the call with the configuration's
  \<open>resume_dir\<close>; and with an explicit directory the configuration has no influence
  on it. With \<open>names=None\<close> every subnetwork of the map is loaded from the directory in
  use (the argument when one is given, the configuration's \<open>resume_dir\<close> otherwise):
  when the files that exist there pass the strict check and no two subnetworks share a
  parameter, the call returns normally, and for every subnetwork whose file
  \<open>{epoch}_subnet_{name}.pth\<close> exists in that directory each of its parameters then
  holds the tensor that the file stores under the parameter's name, its gradient flag
  unchanged; the subnetworks without a file there are reported.
\<close>

theorem load_subnetworks_defaults:
  "load_subnetworks ep None resume_dir s =
     load_subnetworks ep (Some (case subnetworks s of None \<Rightarrow> [] | Some networks \<Rightarrow> map fst networks))
       resume_dir s \<and>
   load_subnetworks ep names None s = load_subnetworks ep names (opt_resume_dir (opt s)) s \<and>
   load_subnetworks ep names (Some d) (s\<lparr>opt := o'\<rparr>) =
     apsnd (\<lambda>s'. s'\<lparr>opt := o'\<rparr>) (load_subnetworks ep names (Some d) s) \<and>
   (subnetworks s = Some networks \<and>
    (resume_dir = Some dir \<or> resume_dir = None \<and> opt_resume_dir (opt s) = Some dir) \<and>
    (\<forall>(n, net)\<in>set networks. \<forall>sd. files s (path_join dir (subnet_filename ep n)) = Some sd
        \<longrightarrow> keys_match (unwrap net) sd) \<and>
    distinct (concat (map (\<lambda>(n, net). map snd (named_parameters net)) networks)) \<longrightarrow>
    (\<exists>s'. load_subnetworks ep None resume_dir s = (Inr (), s') \<and>
          stdout s' = stdout s @ Call_load_subnetworks ep #
            map PrintCannotLoad
              (subnet_checkpoints_missing ep (set (map fst networks)) dir (files s) networks) \<and>
          (\<forall>(n, net)\<in>set networks. \<forall>sd. files s (path_join dir (subnet_filename ep n)) = Some sd \<longrightarrow>
             (\<forall>(k, a)\<in>set (named_parameters (unwrap net)).
                \<exists>t. map_of sd k = Some t \<and> store s' a = (store s a)\<lparr>data := t\<rparr>))))"
proof (intro conjI impI)
  show "load_subnetworks ep None resume_dir s =
     load_subnetworks ep (Some (case subnetworks s of None \<Rightarrow> [] | Some networks \<Rightarrow> map fst networks))
       resume_dir s"
    and "load_subnetworks ep names None s = load_subnetworks ep names (opt_resume_dir (opt s)) s"
    and "load_subnetworks ep names (Some d) (s\<lparr>opt := o'\<rparr>) =
     apsnd (\<lambda>s'. s'\<lparr>opt := o'\<rparr>) (load_subnetworks ep names (Some d) s)"
    using load_subnetworks_default_arguments [of ep resume_dir s names d o'] by simp_all
next
  assume h: "subnetworks s = Some networks \<and>
    (resume_dir = Some dir \<or> resume_dir = None \<and> opt_resume_dir (opt s) = Some dir) \<and>
    (\<forall>(n, net)\<in>set networks. \<forall>sd. files s (path_join dir (subnet_filename ep n)) = Some sd
        \<longrightarrow> keys_match (unwrap net) sd) \<and>
    distinct (concat (map (\<lambda>(n, net). map snd (named_parameters net)) networks))"
  have a: "subnetworks s = Some networks" using h by simp
  have b: "resume_dir = Some dir \<or> resume_dir = None \<and> opt_resume_dir (opt s) = Some dir"
    using h by simp
  have c: "\<forall>x\<in>set networks. \<forall>sd. files s (path_join dir (subnet_filename ep (fst x))) = Some sd
                   \<longrightarrow> keys_match (unwrap (snd x)) sd"
    using h by (simp add: case_prod_beta)
  have e: "distinct (concat (map (\<lambda>x. map snd (named_parameters (snd x))) networks))"
    using h by (simp add: split_def)
  from load_subnetworks_all_loaded [OF a b c e]
  show "\<exists>s'. load_subnetworks ep None resume_dir s = (Inr (), s') \<and>
          stdout s' = stdout s @ Call_load_subnetworks ep #
            map PrintCannotLoad
              (subnet_checkpoints_missing ep (set (map fst networks)) dir (files s) networks) \<and>
          (\<forall>(n, net)\<in>set networks. \<forall>sd. files s (path_join dir (subnet_filename ep n)) = Some sd \<longrightarrow>
             (\<forall>(k, a)\<in>set (named_parameters (unwrap net)).
                \<exists>t. map_of sd k = Some t \<and> store s' a = (store s a)\<lparr>data := t\<rparr>))"
    by (simp add: case_prod_beta)
qed

text \<open>
  Claim C9 on the example object with files for \<open>enc\<close> and \<open>dec\<close> under the
  configuration's directory \<open>run\<close> and a file for \<open>enc\<close> alone under \<open>pre\<close>:
  without arguments both subnetworks receive the tensors stored under \<open>run\<close>; with
  the directory \<open>pre\<close> given, \<open>enc\<close> receives the tensor stored under \<open>pre\<close> and
  \<open>dec\<close> is reported as missing there.
\<close>

theorem load_subnetworks_defaults_witness:
  "fst (load_subnetworks (EpochStr ''latest'') None None
          (example_state\<lparr>files := [''run/latest_subnet_enc.pth'' \<mapsto> [(''w'', [10])],
                                     ''run/latest_subnet_dec.pth'' \<mapsto> [(''b'', [11])],
                                     ''pre/latest_subnet_enc.pth'' \<mapsto> [(''w'', [20])]]\<rparr>)) = Inr () \<and>
   data (store (snd (load_subnetworks (EpochStr ''latest'') None None
          (example_state\<lparr>files := [''run/latest_subnet_enc.pth'' \<mapsto> [(''w'', [10])],
                                     ''run/latest_subnet_dec.pth'' \<mapsto> [(''b'', [11])],
                                     ''pre/latest_subnet_enc.pth'' \<mapsto> [(''w'', [20])]]\<rparr>))) 0) = [10] \<and>
   data (store (snd (load_subnetworks (EpochStr ''latest'') None None
          (example_state\<lparr>files := [''run/latest_subnet_enc.pth'' \<mapsto> [(''w'', [10])],
                                     ''run/latest_subnet_dec.pth'' \<mapsto> [(''b'', [11])],
                                     ''pre/latest_subnet_enc.pth'' \<mapsto> [(''w'', [20])]]\<rparr>))) 1) = [11] \<and>
   data (store (snd (load_subnetworks (EpochStr ''latest'') None (Some ''pre'')
          (example_state\<lparr>files := [''run/latest_subnet_enc.pth'' \<mapsto> [(''w'', [10])],
                                     ''run/latest_subnet_dec.pth'' \<mapsto> [(''b'', [11])],
                                     ''pre/latest_subnet_enc.pth'' \<mapsto> [(''w'', [20])]]\<rparr>))) 0) = [20] \<and>
   stdout (snd (load_subnetworks (EpochStr ''latest'') None (Some ''pre'')
          (example_state\<lparr>files := [''run/latest_subnet_enc.pth'' \<mapsto> [(''w'', [10])],
                                     ''run/latest_subnet_dec.pth'' \<mapsto> [(''b'', [11])],
                                     ''pre/latest_subnet_enc.pth'' \<mapsto> [(''w'', [20])]]\<rparr>)))
     = [Call_load_subnetworks (EpochStr ''latest''), PrintCannotLoad ''pre/latest_subnet_dec.pth''] \<and>
   load_subnetworks (EpochStr ''latest'') None None
          (example_state\<lparr>files := [''run/latest_subnet_enc.pth'' \<mapsto> [(''w'', [10])],
                                     ''run/latest_subnet_dec.pth'' \<mapsto> [(''b'', [11])],
                                     ''pre/latest_subnet_enc.pth'' \<mapsto> [(''w'', [20])]]\<rparr>)
     = load_subnetworks (EpochStr ''latest'') (Some [''enc'', ''dec'']) (Some ''run'')
          (example_state\<lparr>files := [''run/latest_subnet_enc.pth'' \<mapsto> [(''w'', [10])],
                                     ''run/latest_subnet_dec.pth'' \<mapsto> [(''b'', [11])],
                                     ''pre/latest_subnet_enc.pth'' \<mapsto> [(''w'', [20])]]\<rparr>)"
proof -
  let ?s = "example_state\<lparr>files := [''run/latest_subnet_enc.pth'' \<mapsto> [(''w'', [10])],
                                     ''run/latest_subnet_dec.pth'' \<mapsto> [(''b'', [11])],
                                     ''pre/latest_subnet_enc.pth'' \<mapsto> [(''w'', [20])]]\<rparr>"
  let ?nets = "[(''enc'', Module [(''w'', 0)]), (''dec'', Module [(''b'', 1)])]"
  let ?ep = "EpochStr ''latest''"
  have sub: "subnetworks ?s = Some ?nets" by (simp add: example_state_def)
  have cfg: "opt_resume_dir (opt ?s) = Some ''run''"
    by (simp add: example_state_def example_options_def)
  have dist: "distinct (concat (map (\<lambda>(n, net). map snd (named_parameters net)) ?nets))" by simp
  have st: "store ?s = example_store" by (simp add: example_state_def)
  have run_files:
    "files ?s (path_join ''run'' (subnet_filename ?ep ''enc'')) = Some [(''w'', [10])]"
    "files ?s (path_join ''run'' (subnet_filename ?ep ''dec'')) = Some [(''b'', [11])]"
    by (simp_all add: eval_strings)
  have pre_files:
    "files ?s (path_join ''pre'' (subnet_filename ?ep ''enc'')) = Some [(''w'', [20])]"
    "files ?s (path_join ''pre'' (subnet_filename ?ep ''dec'')) = None"
    by (simp_all add: eval_strings)
  have run_strict: "\<forall>(n, net)\<in>set ?nets. \<forall>sd. files ?s (path_join ''run'' (subnet_filename ?ep n)) = Some sd
        \<longrightarrow> keys_match (unwrap net) sd"
    using run_files by (simp add: eval_load)
  have pre_strict: "\<forall>(n, net)\<in>set ?nets. \<forall>sd. files ?s (path_join ''pre'' (subnet_filename ?ep n)) = Some sd
        \<longrightarrow> keys_match (unwrap net) sd"
    using pre_files by (simp add: eval_load)
  note run = load_subnetworks_defaults [where s = ?s and ep = ?ep and resume_dir = None and networks = ?nets
                     and dir = "''run''" and names = "Some [''enc'', ''dec'']"]
  note pre = load_subnetworks_defaults [where s = ?s and ep = ?ep and resume_dir = "Some ''pre''" and networks = ?nets
                     and dir = "''pre''"]
  from run sub cfg run_strict dist obtain s1 where
    r1: "load_subnetworks ?ep None None ?s = (Inr (), s1)" and
    l1: "\<forall>(n, net)\<in>set ?nets. \<forall>sd. files ?s (path_join ''run'' (subnet_filename ?ep n)) = Some sd \<longrightarrow>
             (\<forall>(k, a)\<in>set (named_parameters (unwrap net)).
                \<exists>t. map_of sd k = Some t \<and> store s1 a = (store ?s a)\<lparr>data := t\<rparr>)"
    by blast
  from pre sub pre_strict dist obtain s2 where
    r2: "load_subnetworks ?ep None (Some ''pre'') ?s = (Inr (), s2)" and
    o2: "stdout s2 = stdout ?s @ Call_load_subnetworks ?ep #
            map PrintCannotLoad
              (subnet_checkpoints_missing ?ep (set (map fst ?nets)) ''pre'' (files ?s) ?nets)" and
    l2: "\<forall>(n, net)\<in>set ?nets. \<forall>sd. files ?s (path_join ''pre'' (subnet_filename ?ep n)) = Some sd \<longrightarrow>
             (\<forall>(k, a)\<in>set (named_parameters (unwrap net)).
                \<exists>t. map_of sd k = Some t \<and> store s2 a = (store ?s a)\<lparr>data := t\<rparr>)"
    by blast
  have d0: "data (store s1 0) = [10]" and d1: "data (store s1 1) = [11]"
    using l1 run_files by (simp_all add: unwrap_def)
  have d2: "data (store s2 0) = [20]"
    using l2 pre_files by (simp add: unwrap_def)
  have out: "stdout s2 = [Call_load_subnetworks ?ep, PrintCannotLoad ''pre/latest_subnet_dec.pth'']"
    unfolding o2 using pre_files
    by (simp add: subnet_checkpoints_missing_def example_state_def) (simp add: eval_strings)
  have eq: "load_subnetworks ?ep None None ?s
              = load_subnetworks ?ep (Some [''enc'', ''dec'']) (Some ''run'') ?s"
    using run sub cfg by simp
  show ?thesis
    unfolding eq [symmetric] r1 r2 using d0 d1 d2 out by simp
qed

section \<open>The order of the calls in \<open>setup\<close>\<close>

lemma extends_refl: "extends s s"
  by (simp add: extends_def)

lemma extends_trans: "extends s s1 \<Longrightarrow> extends s1 s2 \<Longrightarrow> extends s s2"
  by (auto simp: extends_def)

lemma new_calls_append:
  "extends s s1 \<Longrightarrow> extends s1 s2 \<Longrightarrow> new_calls s s2 = new_calls s s1 @ new_calls s1 s2"
  by (auto simp: extends_def new_calls_def new_events_def calls_def prefix_def)

lemma new_calls_refl: "new_calls s s = []"
  by (simp add: new_calls_def new_events_def calls_def)

lemma extends_print: "extends s (print e s)"
  by (simp add: extends_def print_def)

lemma new_calls_print: "new_calls s (print e s) = (if is_call e then [e] else [])"
  by (simp add: new_calls_def new_events_def calls_def print_def)

lemma extends_store: "extends s (s\<lparr>store := st\<rparr>)"
  by (simp add: extends_def)

lemma new_calls_store: "new_calls s (s\<lparr>store := st\<rparr>) = []"
  by (simp add: new_calls_def new_events_def calls_def)

lemma quiet_trans:
  "extends s s1 \<and> new_calls s s1 = [] \<Longrightarrow> extends s1 s2 \<and> new_calls s1 s2 = [] \<Longrightarrow>
   extends s s2 \<and> new_calls s s2 = []"
  by (simp add: extends_trans [of s s1 s2] new_calls_append [of s s1 s2])

lemma load_subnetworks_loop_quiet:
  "extends s (snd (load_subnetworks_loop ep names rd networks s)) \<and>
   new_calls s (snd (load_subnetworks_loop ep names rd networks s)) = []"
proof (induction networks arbitrary: s)
  case Nil
  then show ?case by (simp add: extends_refl new_calls_refl)
next
  case (Cons x networks)
  obtain n net where x: "x = (n, net)" by (cases x)
  have p: "\<And>e. \<not> is_call e \<Longrightarrow>
      extends s (snd (load_subnetworks_loop ep names rd networks (print e s))) \<and>
      new_calls s (snd (load_subnetworks_loop ep names rd networks (print e s))) = []"
    by (rule quiet_trans [OF _ Cons.IH]) (simp add: extends_print new_calls_print)
  have q: "\<And>st. extends s (snd (load_subnetworks_loop ep names rd networks (s\<lparr>store := st\<rparr>))) \<and>
      new_calls s (snd (load_subnetworks_loop ep names rd networks (s\<lparr>store := st\<rparr>))) = []"
    by (rule quiet_trans [OF _ Cons.IH]) (simp add: extends_store new_calls_store)
  show ?case
    unfolding x load_subnetworks_loop_Cons
    by (simp add: Cons.IH p q extends_refl new_calls_refl extends_store new_calls_store
          split: option.splits)
qed

lemma load_networks_loop_quiet:
  "extends s (snd (load_networks_loop ep xs s)) \<and>
   new_calls s (snd (load_networks_loop ep xs s)) = []"
proof (induction xs arbitrary: s)
  case Nil
  then show ?case by (simp add: extends_refl new_calls_refl)
next
  case (Cons x xs)
  obtain n net where x: "x = (n, net)" by (cases x)
  let ?s = "print (PrintLoading n) s"
  have s0: "extends s ?s \<and> new_calls s ?s = []" by (simp add: extends_print new_calls_print)
  have "extends ?s (snd (load_networks_loop ep ((n, net) # xs) s)) \<and>
        new_calls ?s (snd (load_networks_loop ep ((n, net) # xs) s)) = []"
  proof (cases n)
    case (PyInt i)
    then show ?thesis by (simp add: extends_refl new_calls_refl Let_def)
  next
    case (PyStr k)
    show ?thesis
    proof (cases "opt_resume_dir (opt ?s)")
      case None
      then show ?thesis using PyStr
        by (simp add: extends_refl new_calls_refl Let_def os_path_join_def)
    next
      case (Some d)
      show ?thesis
      proof (cases "files ?s (path_join d (net_filename ep n))")
        case None
        let ?t = "print (PrintCannotLoad (path_join d (net_filename ep n))) ?s"
        have "extends ?s ?t \<and> new_calls ?s ?t = []" by (simp add: extends_print new_calls_print)
        from quiet_trans [OF this Cons.IH [of ?t]] show ?thesis
          using PyStr Some None by (simp add: Let_def os_path_join_def)
      next
        case sd: (Some sd)
        let ?t = "?s\<lparr>store := copy_params (unwrap net) sd (store ?s)\<rparr>"
        have "extends ?s ?t \<and> new_calls ?s ?t = []" by (simp add: extends_store new_calls_store)
        from quiet_trans [OF this Cons.IH [of ?t]] show ?thesis
          using PyStr Some sd by (simp add: Let_def os_path_join_def load_state_dict_eq)
      qed
    qed
  qed
  from quiet_trans [OF s0 this] show ?case unfolding x .
qed

lemma requires_grad_loop_quiet:
  "extends s (snd (requires_grad_loop nets flag names s)) \<and>
   new_calls s (snd (requires_grad_loop nets flag names s)) = []"
proof (induction names arbitrary: s)
  case Nil
  then show ?case by (simp add: extends_refl new_calls_refl)
next
  case (Cons n names)
  show ?case
  proof (cases "map_of nets n")
    case None
    then show ?thesis by (simp add: extends_refl new_calls_refl)
  next
    case (Some net)
    let ?t = "s\<lparr>store := module_requires_grad net flag (store s)\<rparr>"
    have "extends s ?t \<and> new_calls s ?t = []" by (simp add: extends_store new_calls_store)
    from quiet_trans [OF this Cons.IH [of ?t]] show ?thesis using Some by simp
  qed
qed

lemma print_networks_loop_quiet:
  "extends s (print_networks_loop verbose xs s) \<and>
   new_calls s (print_networks_loop verbose xs s) = []"
proof (induction xs arbitrary: s)
  case Nil
  then show ?case by (simp add: extends_refl new_calls_refl)
next
  case (Cons x xs)
  obtain n net where x: "x = (n, net)" by (cases x)
  let ?s1 = "if verbose then print (PrintNet net) s else s"
  let ?s2 = "print (PrintNumParams n (sum_list (map (\<lambda>a. length (data (store s a))) (parameters net)))) ?s1"
  have a: "extends s ?s1 \<and> new_calls s ?s1 = []"
    by (simp add: extends_print new_calls_print extends_refl new_calls_refl)
  have b: "extends ?s1 ?s2 \<and> new_calls ?s1 ?s2 = []"
    by (simp add: extends_print new_calls_print)
  from quiet_trans [OF quiet_trans [OF a b] Cons.IH [of ?s2]] show ?case
    unfolding x by (simp add: Let_def)
qed

lemma calls_then_quiet:
  "extends s s0 \<Longrightarrow> new_calls s s0 = cs \<Longrightarrow> extends s0 s1 \<and> new_calls s0 s1 = [] \<Longrightarrow>
   extends s s1 \<and> new_calls s s1 = cs"
  by (simp add: extends_trans [of s s0 s1] new_calls_append [of s s0 s1])

lemma load_subnetworks_calls:
  "extends s (snd (load_subnetworks ep names rd s)) \<and>
   new_calls s (snd (load_subnetworks ep names rd s)) = [Call_load_subnetworks ep]"
proof -
  let ?s = "print (Call_load_subnetworks ep) s"
  have a: "extends s ?s" "new_calls s ?s = [Call_load_subnetworks ep]"
    by (simp_all add: extends_print new_calls_print)
  have b: "extends ?s (snd (load_subnetworks ep names rd s)) \<and>
           new_calls ?s (snd (load_subnetworks ep names rd s)) = []"
    by (cases "get_subnetworks ?s")
       (simp_all add: load_subnetworks_def Let_def extends_refl new_calls_refl
          load_subnetworks_loop_quiet)
  show ?thesis by (rule calls_then_quiet [OF a b])
qed

lemma load_networks_calls:
  "extends s (snd (load_networks ep s)) \<and>
   new_calls s (snd (load_networks ep s)) = [Call_load_networks ep]"
proof -
  let ?s = "print (Call_load_networks ep) s"
  have a: "extends s ?s" "new_calls s ?s = [Call_load_networks ep]"
    by (simp_all add: extends_print new_calls_print)
  have b: "extends ?s (snd (load_networks ep s)) \<and> new_calls ?s (snd (load_networks ep s)) = []"
    by (cases "get_networks ?s")
       (simp_all add: load_networks_def Let_def extends_refl new_calls_refl
          load_networks_loop_quiet)
  show ?thesis by (rule calls_then_quiet [OF a b])
qed

lemma freeze_subnetworks_calls:
  "extends s (snd (freeze_subnetworks names s)) \<and>
   new_calls s (snd (freeze_subnetworks names s)) = [Call_freeze_subnetworks names]"
proof -
  let ?s = "print (Call_freeze_subnetworks names) s"
  have a: "extends s ?s" "new_calls s ?s = [Call_freeze_subnetworks names]"
    by (simp_all add: extends_print new_calls_print)
  have b: "extends ?s (snd (freeze_subnetworks names s)) \<and>
           new_calls ?s (snd (freeze_subnetworks names s)) = []"
    by (cases "get_subnetworks ?s")
       (simp_all add: freeze_subnetworks_def Let_def extends_refl new_calls_refl
          requires_grad_loop_quiet)
  show ?thesis by (rule calls_then_quiet [OF a b])
qed

lemma print_networks_calls:
  "extends s (snd (print_networks verbose s)) \<and>
   new_calls s (snd (print_networks verbose s)) = [Call_print_networks verbose]"
proof -
  let ?c = "print (Call_print_networks verbose) s"
  let ?s = "print PrintNetworksHeader ?c"
  have a: "extends s ?c" "new_calls s ?c = [Call_print_networks verbose]"
    by (simp_all add: extends_print new_calls_print)
  have a': "extends ?c ?s \<and> new_calls ?c ?s = []"
    by (simp add: extends_print new_calls_print)
  have b: "extends ?s (snd (print_networks verbose s)) \<and>
           new_calls ?s (snd (print_networks verbose s)) = []"
  proof (cases "get_networks ?s")
    case (Inl e)
    then show ?thesis by (simp add: print_networks_def Let_def extends_refl new_calls_refl)
  next
    case (Inr nets)
    let ?t = "print_networks_loop verbose (zip (model_names ?s) nets) ?s"
    have "extends ?s ?t \<and> new_calls ?s ?t = []" by (rule print_networks_loop_quiet)
    moreover have "extends ?t (print PrintNetworksFooter ?t) \<and>
                   new_calls ?t (print PrintNetworksFooter ?t) = []"
      by (simp add: extends_print new_calls_print)
    ultimately have "extends ?s (print PrintNetworksFooter ?t) \<and>
                     new_calls ?s (print PrintNetworksFooter ?t) = []"
      by (rule quiet_trans)
    then show ?thesis using Inr by (simp add: print_networks_def Let_def)
  qed
  show ?thesis by (rule calls_then_quiet [OF a quiet_trans [OF a' b]])
qed

lemma setup_schedulers_calls:
  "extends s (snd (setup_schedulers gs o' s)) \<and>
   new_calls s (snd (setup_schedulers gs o' s)) = []"
  by (cases "optimizers s")
     (simp_all add: setup_schedulers_def extends_def new_calls_def new_events_def calls_def)

lemma setup_load_subnetworks_calls:
  "extends s (snd (setup_load_subnetworks o' s)) \<and>
   new_calls s (snd (setup_load_subnetworks o' s)) =
     (if truthy (opt_load_subnetworks_dir o') \<and> opt_load_subnetworks o' \<noteq> None
      then [Call_load_subnetworks (opt_load_subnetworks_epoch o')] else [])"
proof (cases "truthy (opt_load_subnetworks_dir o')")
  case False
  then show ?thesis by (simp add: setup_load_subnetworks_def extends_refl new_calls_refl)
next
  case True
  show ?thesis
  proof (cases "opt_load_subnetworks o'")
    case None
    then show ?thesis using True
      by (simp add: setup_load_subnetworks_def extends_refl new_calls_refl)
  next
    case (Some names)
    let ?r = "load_subnetworks (opt_load_subnetworks_epoch o') (Some (split_comma names))
                (opt_load_subnetworks_dir o') s"
    have c: "extends s (snd ?r) \<and>
             new_calls s (snd ?r) = [Call_load_subnetworks (opt_load_subnetworks_epoch o')]"
      by (rule load_subnetworks_calls)
    have p: "extends (snd ?r) (print (PrintLoadingPretrained (split_comma names)) (snd ?r)) \<and>
             new_calls (snd ?r) (print (PrintLoadingPretrained (split_comma names)) (snd ?r)) = []"
      by (simp add: extends_print new_calls_print)
    have res: "snd (setup_load_subnetworks o' s) =
                 (if fst ?r = Inr () then print (PrintLoadingPretrained (split_comma names)) (snd ?r)
                  else snd ?r)"
      using True Some
      by (cases ?r) (auto simp: setup_load_subnetworks_def Let_def split: sum.splits)
    have "extends s (snd (setup_load_subnetworks o' s)) \<and>
          new_calls s (snd (setup_load_subnetworks o' s))
            = [Call_load_subnetworks (opt_load_subnetworks_epoch o')]"
    proof (cases "fst ?r = Inr ()")
      case ok: True
      show ?thesis unfolding res using ok
        by (simp add: calls_then_quiet [OF conjunct1 [OF c] conjunct2 [OF c] p])
    next
      case err: False
      show ?thesis unfolding res using err c by simp
    qed
    then show ?thesis using True Some by simp
  qed
qed

lemma setup_load_networks_calls:
  "extends s (snd (setup_load_networks o' s)) \<and>
   new_calls s (snd (setup_load_networks o' s)) =
     (if \<not> is_train s \<or> truthy (opt_resume_dir o')
      then [Call_load_networks (opt_resume_epoch o')] else [])"
  by (simp add: setup_load_networks_def load_networks_calls extends_refl new_calls_refl)

lemma setup_freeze_subnetworks_calls:
  "extends s (snd (setup_freeze_subnetworks o' s)) \<and>
   new_calls s (snd (setup_freeze_subnetworks o' s)) =
     (case opt_freeze_subnetworks o' of
        None \<Rightarrow> []
      | Some fz \<Rightarrow> if fz = [] then [] else [Call_freeze_subnetworks (split_comma fz)])"
proof (cases "opt_freeze_subnetworks o'")
  case None
  then show ?thesis
    by (simp add: setup_freeze_subnetworks_def truthy_def extends_refl new_calls_refl)
next
  case (Some fz)
  show ?thesis
  proof (cases "fz = []")
    case True
    then show ?thesis using Some
      by (simp add: setup_freeze_subnetworks_def truthy_def extends_refl new_calls_refl)
  next
    case False
    let ?r = "freeze_subnetworks (split_comma fz) s"
    have c: "extends s (snd ?r) \<and> new_calls s (snd ?r) = [Call_freeze_subnetworks (split_comma fz)]"
      by (rule freeze_subnetworks_calls)
    have p: "extends (snd ?r) (print (PrintFreezing (split_comma fz)) (snd ?r)) \<and>
             new_calls (snd ?r) (print (PrintFreezing (split_comma fz)) (snd ?r)) = []"
      by (simp add: extends_print new_calls_print)
    have res: "snd (setup_freeze_subnetworks o' s) =
                 (if fst ?r = Inr () then print (PrintFreezing (split_comma fz)) (snd ?r)
                  else snd ?r)"
      using False Some
      by (cases ?r) (auto simp: setup_freeze_subnetworks_def truthy_def Let_def split: sum.splits)
    have "extends s (snd (setup_freeze_subnetworks o' s)) \<and>
          new_calls s (snd (setup_freeze_subnetworks o' s))
            = [Call_freeze_subnetworks (split_comma fz)]"
    proof (cases "fst ?r = Inr ()")
      case ok: True
      show ?thesis unfolding res using ok
        by (simp add: calls_then_quiet [OF conjunct1 [OF c] conjunct2 [OF c] p])
    next
      case err: False
      show ?thesis unfolding res using err c by simp
    qed
    then show ?thesis using False Some by simp
  qed
qed

lemma and_then_fst:
  "fst (and_then f g s) = Inr () \<longleftrightarrow> fst (f s) = Inr () \<and> fst (g (snd (f s))) = Inr ()"
  by (cases "f s") (auto simp: and_then_def split: sum.splits)

lemma and_then_calls:
  assumes "extends s (snd (f s))" and "extends (snd (f s)) (snd (g (snd (f s))))"
  shows "extends s (snd (and_then f g s)) \<and>
         new_calls s (snd (and_then f g s)) =
           new_calls s (snd (f s)) @
             (if fst (f s) = Inr () then new_calls (snd (f s)) (snd (g (snd (f s)))) else [])"
proof (cases "fst (f s) = Inr ()")
  case True
  then have "and_then f g s = g (snd (f s))"
    by (cases "f s") (auto simp: and_then_def split: sum.splits)
  then show ?thesis
    using True by (simp add: extends_trans [OF assms] new_calls_append [OF assms])
next
  case False
  then have "and_then f g s = f s"
    by (cases "f s") (auto simp: and_then_def split: sum.splits)
  then show ?thesis using assms False by simp
qed

lemma setup_model_calls:
  "new_calls s (snd (setup_model gs o' s)) =
     (if fst (setup_schedulers gs o' s) = Inr () then
        (if truthy (opt_load_subnetworks_dir o') \<and> opt_load_subnetworks o' \<noteq> None
         then [Call_load_subnetworks (opt_load_subnetworks_epoch o')] else []) @
        (if fst (setup_load_subnetworks o' (snd (setup_schedulers gs o' s))) = Inr () then
           (if \<not> is_train s \<or> truthy (opt_resume_dir o')
            then [Call_load_networks (opt_resume_epoch o')] else []) @
           (if fst (setup_load_networks o'
                      (snd (setup_load_subnetworks o' (snd (setup_schedulers gs o' s))))) = Inr () then
              (case opt_freeze_subnetworks o' of
                 None \<Rightarrow> []
               | Some fz \<Rightarrow> if fz = [] then [] else [Call_freeze_subnetworks (split_comma fz)]) @
              (if fst (setup_freeze_subnetworks o'
                         (snd (setup_load_networks o'
                            (snd (setup_load_subnetworks o' (snd (setup_schedulers gs o' s))))))) = Inr ()
               then [Call_print_networks (opt_verbose o')] else [])
            else [])
         else [])
      else [])"
proof -
  let ?P1 = "setup_schedulers gs o'"
  let ?P2 = "setup_load_subnetworks o'"
  let ?P3 = "setup_load_networks o'"
  let ?P4 = "setup_freeze_subnetworks o'"
  let ?P5 = "print_networks (opt_verbose o')"
  let ?A4 = "and_then ?P4 ?P5"
  let ?A3 = "and_then ?P3 ?A4"
  let ?A2 = "and_then ?P2 ?A3"
  have e5: "\<And>t. extends t (snd (?P5 t))" by (simp add: print_networks_calls)
  have e4: "\<And>t. extends t (snd (?P4 t))" by (simp add: setup_freeze_subnetworks_calls)
  have e3: "\<And>t. extends t (snd (?P3 t))" by (simp add: setup_load_networks_calls)
  have e2: "\<And>t. extends t (snd (?P2 t))" by (simp add: setup_load_subnetworks_calls)
  have e1: "\<And>t. extends t (snd (?P1 t))" by (simp add: setup_schedulers_calls)
  note a4 = and_then_calls [of _ ?P4 ?P5, OF e4 e5]
  have x4: "\<And>t. extends t (snd (?A4 t))" using a4 by simp
  note a3 = and_then_calls [of _ ?P3 ?A4, OF e3 x4]
  have x3: "\<And>t. extends t (snd (?A3 t))" using a3 by simp
  note a2 = and_then_calls [of _ ?P2 ?A3, OF e2 x3]
  have x2: "\<And>t. extends t (snd (?A2 t))" using a2 by simp
  note a1 = and_then_calls [of _ ?P1 ?A2, OF e1 x2]
  have t1: "is_train (snd (?P1 s)) = is_train s" using e1 [of s] by (simp add: extends_def)
  have t2: "is_train (snd (?P2 (snd (?P1 s)))) = is_train s"
    using e2 [of "snd (?P1 s)"] t1 by (simp add: extends_def)
  have c4: "new_calls (snd (?P3 (snd (?P2 (snd (?P1 s))))))
              (snd (?A4 (snd (?P3 (snd (?P2 (snd (?P1 s))))))))
            = (case opt_freeze_subnetworks o' of
                 None \<Rightarrow> []
               | Some fz \<Rightarrow> if fz = [] then [] else [Call_freeze_subnetworks (split_comma fz)]) @
              (if fst (?P4 (snd (?P3 (snd (?P2 (snd (?P1 s))))))) = Inr ()
               then [Call_print_networks (opt_verbose o')] else [])"
    by (simp only: a4 setup_freeze_subnetworks_calls print_networks_calls)
  have c3: "new_calls (snd (?P2 (snd (?P1 s)))) (snd (?A3 (snd (?P2 (snd (?P1 s))))))
            = (if \<not> is_train s \<or> truthy (opt_resume_dir o')
               then [Call_load_networks (opt_resume_epoch o')] else []) @
              (if fst (?P3 (snd (?P2 (snd (?P1 s))))) = Inr () then
                 new_calls (snd (?P3 (snd (?P2 (snd (?P1 s))))))
                   (snd (?A4 (snd (?P3 (snd (?P2 (snd (?P1 s))))))))
               else [])"
    by (simp only: a3 setup_load_networks_calls t2)
  have c2: "new_calls (snd (?P1 s)) (snd (?A2 (snd (?P1 s))))
            = (if truthy (opt_load_subnetworks_dir o') \<and> opt_load_subnetworks o' \<noteq> None
               then [Call_load_subnetworks (opt_load_subnetworks_epoch o')] else []) @
              (if fst (?P2 (snd (?P1 s))) = Inr () then
                 new_calls (snd (?P2 (snd (?P1 s)))) (snd (?A3 (snd (?P2 (snd (?P1 s))))))
               else [])"
    by (simp only: a2 setup_load_subnetworks_calls)
  have c1: "new_calls s (snd (setup_model gs o' s))
            = (if fst (?P1 s) = Inr () then new_calls (snd (?P1 s)) (snd (?A2 (snd (?P1 s)))) else [])"
    unfolding setup_model_def by (simp only: a1 setup_schedulers_calls append_Nil)
  show ?thesis
    unfolding c1 c2 c3 c4 ..
qed

lemma setup_model_ok:
  "fst (setup_model gs o' s) = Inr () \<Longrightarrow>
     fst (setup_schedulers gs o' s) = Inr () \<and>
     fst (setup_load_subnetworks o' (snd (setup_schedulers gs o' s))) = Inr () \<and>
     fst (setup_load_networks o'
            (snd (setup_load_subnetworks o' (snd (setup_schedulers gs o' s))))) = Inr () \<and>
     fst (setup_freeze_subnetworks o'
            (snd (setup_load_networks o'
               (snd (setup_load_subnetworks o' (snd (setup_schedulers gs o' s))))))) = Inr ()"
  unfolding setup_model_def by (simp add: and_then_fst)

lemma setup_load_subnetworks_none:
  "truthy (opt_load_subnetworks_dir o') \<Longrightarrow> opt_load_subnetworks o' = None \<Longrightarrow>
   fst (setup_load_subnetworks o' t) \<noteq> Inr ()"
  by (simp add: setup_load_subnetworks_def)

lemma call_in_new_events:
  "is_call c \<Longrightarrow> c \<in> set (new_events s s') \<longleftrightarrow> c \<in> set (new_calls s s')"
  by (simp add: new_calls_def calls_def)

lemmas eval_setup =
  setup_model_def and_then_def setup_schedulers_def setup_load_subnetworks_def
  setup_load_networks_def setup_freeze_subnetworks_def truthy_def
  load_subnetworks_def load_networks_def freeze_subnetworks_def print_networks_def
  get_subnetworks_def get_networks_def print_def Let_def os_path_join_def load_dir_def
  new_calls_def new_events_def calls_def

text \<open>
  Claim C1, as the spec states it: when subnetwork loading, full-network loading and
  freezing are all requested, \<open>setup\<close> loads the subnetworks, then freezes, then loads
  the full networks. It does not hold: on the example object, where all three are
  requested, \<open>load_networks\<close> is entered before \<open>freeze_subnetworks\<close>, and
  \<open>freeze_subnetworks\<close> is not entered before \<open>load_networks\<close>.
\<close>

theorem setup_freezes_after_loading_counterexample:
  "fst (setup_model example_get_scheduler example_options example_state) = Inr () \<and>
   new_calls example_state (snd (setup_model example_get_scheduler example_options example_state))
     = [Call_load_subnetworks (EpochStr ''latest''), Call_load_networks (EpochInt 7),
        Call_freeze_subnetworks [''enc''], Call_print_networks False] \<and>
   \<not> occurs_before (Call_freeze_subnetworks [''enc'']) (Call_load_networks (EpochInt 7))
       (new_calls example_state
          (snd (setup_model example_get_scheduler example_options example_state))) \<and>
   occurs_before (Call_load_networks (EpochInt 7)) (Call_freeze_subnetworks [''enc''])
       (new_calls example_state
          (snd (setup_model example_get_scheduler example_options example_state)))"
proof -
  have r: "fst (setup_model example_get_scheduler example_options example_state) = Inr () \<and>
           new_calls example_state (snd (setup_model example_get_scheduler example_options example_state))
     = [Call_load_subnetworks (EpochStr ''latest''), Call_load_networks (EpochInt 7),
        Call_freeze_subnetworks [''enc''], Call_print_networks False]"
    by (simp add: eval_setup eval_strings example_state_def example_options_def)
  show ?thesis
    by (simp add: r)
qed

text \<open>
  Claim C1, amended: when all three are requested, the methods that \<open>setup\<close> enters
  are, in this order, \<open>load_subnetworks\<close>, \<open>load_networks\<close>, \<open>freeze_subnetworks\<close>
  and \<open>print_networks\<close>: all four when \<open>setup\<close> returns normally, and an initial part
  of this sequence when one of its statements raises.
\<close>

theorem setup_call_order:
  assumes "truthy (opt_load_subnetworks_dir o')"
    and "opt_freeze_subnetworks o' = Some fz" and "fz \<noteq> []"
    and "\<not> is_train s \<or> truthy (opt_resume_dir o')"
  shows "prefix (new_calls s (snd (setup_model gs o' s)))
           [Call_load_subnetworks (opt_load_subnetworks_epoch o'),
            Call_load_networks (opt_resume_epoch o'),
            Call_freeze_subnetworks (split_comma fz),
            Call_print_networks (opt_verbose o')] \<and>
         (fst (setup_model gs o' s) = Inr () \<longrightarrow>
            new_calls s (snd (setup_model gs o' s)) =
              [Call_load_subnetworks (opt_load_subnetworks_epoch o'),
               Call_load_networks (opt_resume_epoch o'),
               Call_freeze_subnetworks (split_comma fz),
               Call_print_networks (opt_verbose o')])"
proof (cases "opt_load_subnetworks o'")
  case None
  have bad: "fst (setup_load_subnetworks o' (snd (setup_schedulers gs o' s))) \<noteq> Inr ()"
    using assms(1) None by (rule setup_load_subnetworks_none)
  have "new_calls s (snd (setup_model gs o' s)) = []"
    unfolding setup_model_calls using bad None by simp
  moreover have "fst (setup_model gs o' s) \<noteq> Inr ()"
    using setup_model_ok [of gs o' s] bad by blast
  ultimately show ?thesis by simp
next
  case (Some names)
  show ?thesis
  proof (intro conjI impI)
    show "prefix (new_calls s (snd (setup_model gs o' s)))
           [Call_load_subnetworks (opt_load_subnetworks_epoch o'),
            Call_load_networks (opt_resume_epoch o'),
            Call_freeze_subnetworks (split_comma fz),
            Call_print_networks (opt_verbose o')]"
      unfolding setup_model_calls using assms Some by auto
    assume "fst (setup_model gs o' s) = Inr ()"
    from setup_model_ok [OF this]
    show "new_calls s (snd (setup_model gs o' s)) =
              [Call_load_subnetworks (opt_load_subnetworks_epoch o'),
               Call_load_networks (opt_resume_epoch o'),
               Call_freeze_subnetworks (split_comma fz),
               Call_print_networks (opt_verbose o')]"
      unfolding setup_model_calls using assms Some by auto
  qed
qed

text \<open>
  The amended claim on the example object, where \<open>setup\<close> returns normally, and on the
  example object with a registered name \<open>X\<close> that has no attribute, where it raises.
\<close>

theorem setup_call_order_witness:
  "new_calls example_state (snd (setup_model example_get_scheduler example_options example_state))
     = [Call_load_subnetworks (EpochStr ''latest''), Call_load_networks (EpochInt 7),
        Call_freeze_subnetworks [''enc''], Call_print_networks False] \<and>
   prefix (new_calls (example_state\<lparr>model_names := [PyStr ''X'']\<rparr>)
             (snd (setup_model example_get_scheduler example_options
                     (example_state\<lparr>model_names := [PyStr ''X'']\<rparr>))))
     [Call_load_subnetworks (EpochStr ''latest''), Call_load_networks (EpochInt 7),
      Call_freeze_subnetworks [''enc''], Call_print_networks False]"
proof -
  have a: "truthy (opt_load_subnetworks_dir example_options)"
    by (simp add: example_options_def truthy_def)
  have b: "opt_freeze_subnetworks example_options = Some ''enc''" "''enc'' \<noteq> []"
    by (simp_all add: example_options_def)
  have c: "\<not> is_train s \<or> truthy (opt_resume_dir example_options)" for s :: state
    by (simp add: example_options_def truthy_def)
  have ok: "fst (setup_model example_get_scheduler example_options example_state) = Inr ()"
    by (simp add: eval_setup eval_strings example_state_def example_options_def)
  have o: "opt_load_subnetworks_epoch example_options = EpochStr ''latest''"
    "opt_resume_epoch example_options = EpochInt 7" "opt_verbose example_options = False"
    "split_comma ''enc'' = [''enc'']"
    by (simp_all add: example_options_def)
  from setup_call_order [OF a b c, of example_state example_get_scheduler]
       setup_call_order [OF a b c, of "example_state\<lparr>model_names := [PyStr ''X'']\<rparr>" example_get_scheduler]
       ok
  show ?thesis unfolding o by blast
qed

text \<open>
  Claim C10: \<open>setup\<close> enters \<open>load_networks\<close>, with the configuration's
  \<open>resume_epoch\<close>, exactly when the statements before it have raised nothing and the
  object is not in training mode or \<open>resume_dir\<close> is set (not \<open>None\<close> and not empty).
  So outside training mode it is entered also when \<open>resume_dir\<close> is unset, and in
  training mode only when \<open>resume_dir\<close> is set.
\<close>

theorem setup_load_networks_condition:
  "(Call_load_networks ep \<in> set (new_events s (snd (setup_model gs o' s))) \<longleftrightarrow>
      ep = opt_resume_epoch o' \<and> (\<not> is_train s \<or> truthy (opt_resume_dir o')) \<and>
      fst (and_then (setup_schedulers gs o') (setup_load_subnetworks o') s) = Inr ()) \<and>
   (\<not> is_train s \<and>
    fst (and_then (setup_schedulers gs o') (setup_load_subnetworks o') s) = Inr () \<longrightarrow>
      Call_load_networks (opt_resume_epoch o') \<in> set (new_events s (snd (setup_model gs o' s)))) \<and>
   (is_train s \<and> \<not> truthy (opt_resume_dir o') \<longrightarrow>
      Call_load_networks ep \<notin> set (new_events s (snd (setup_model gs o' s))))"
proof -
  have m: "Call_load_networks ep \<in> set (new_events s (snd (setup_model gs o' s))) \<longleftrightarrow>
      ep = opt_resume_epoch o' \<and> (\<not> is_train s \<or> truthy (opt_resume_dir o')) \<and>
      fst (and_then (setup_schedulers gs o') (setup_load_subnetworks o') s) = Inr ()" for ep
    unfolding call_in_new_events [of "Call_load_networks ep", simplified] setup_model_calls and_then_fst
    by (auto split: option.splits)
  show ?thesis using m by blast
qed

text \<open>
  Claim C10 on the example object: outside training mode and with \<open>resume_dir\<close> unset
  everywhere, \<open>load_networks\<close> is entered (and then raises \<open>TypeError\<close>, from
  \<open>os.path.join\<close>); in training mode with \<open>resume_dir\<close> unset it is not entered.
\<close>

theorem setup_load_networks_condition_witness:
  "Call_load_networks (EpochInt 7) \<in> set (new_events
      (example_state\<lparr>is_train := False, opt := example_options\<lparr>opt_resume_dir := None\<rparr>\<rparr>)
      (snd (setup_model example_get_scheduler
              (example_options\<lparr>opt_resume_dir := None, opt_load_subnetworks_dir := None\<rparr>)
              (example_state\<lparr>is_train := False, opt := example_options\<lparr>opt_resume_dir := None\<rparr>\<rparr>)))) \<and>
   fst (setup_model example_get_scheduler
              (example_options\<lparr>opt_resume_dir := None, opt_load_subnetworks_dir := None\<rparr>)
              (example_state\<lparr>is_train := False, opt := example_options\<lparr>opt_resume_dir := None\<rparr>\<rparr>))
     = Inl TypeError \<and>
   Call_load_networks (EpochInt 7) \<notin> set (new_events example_state
      (snd (setup_model example_get_scheduler
              (example_options\<lparr>opt_resume_dir := None, opt_load_subnetworks_dir := None\<rparr>)
              example_state)))"
proof -
  let ?o = "example_options\<lparr>opt_resume_dir := None, opt_load_subnetworks_dir := None\<rparr>"
  let ?s = "example_state\<lparr>is_train := False, opt := example_options\<lparr>opt_resume_dir := None\<rparr>\<rparr>"
  have e: "opt_resume_epoch ?o = EpochInt 7" by (simp add: example_options_def)
  have pre: "\<not> is_train ?s \<and>
             fst (and_then (setup_schedulers example_get_scheduler ?o) (setup_load_subnetworks ?o) ?s) = Inr ()"
    by (simp add: eval_setup)
  have tr: "is_train example_state \<and> \<not> truthy (opt_resume_dir ?o)"
    by (simp add: example_state_def truthy_def)
  have 1: "Call_load_networks (EpochInt 7) \<in> set (new_events ?s (snd (setup_model example_get_scheduler ?o ?s)))"
    using setup_load_networks_condition [of "EpochInt 7" ?s example_get_scheduler ?o] pre e by simp
  have 2: "fst (setup_model example_get_scheduler ?o ?s) = Inl TypeError"
    by (simp add: eval_setup eval_strings example_state_def example_options_def)
  have 3: "Call_load_networks (EpochInt 7) \<notin> set (new_events example_state
             (snd (setup_model example_get_scheduler ?o example_state)))"
    using setup_load_networks_condition [of "EpochInt 7" example_state example_get_scheduler ?o] tr
    by blast
  from 1 2 3 show ?thesis by blast
qed

end
